theory Spec2Isabelle
  imports Complex_Main
begin

section \<open>Platform values: strings, buffers, exceptions\<close>

text \<open>
  A JavaScript string is a sequence of UTF-16 code units, a \<open>Buffer\<close> a sequence of
  bytes. Both are lists of naturals here; \<open>jsstring_ok\<close> and \<open>buffer_ok\<close> say that
  every element is in range. \<open>js\<close> turns a literal of the source into its code units.
\<close>

type_synonym jsstring = "nat list"
type_synonym buffer = "nat list"

definition js :: "string \<Rightarrow> jsstring" where
  "js s = map of_char s"

definition jsstring_ok :: "jsstring \<Rightarrow> bool" where
  "jsstring_ok s = list_all (\<lambda>u. u < 65536) s"

definition buffer_ok :: "buffer \<Rightarrow> bool" where
  "buffer_ok bs = list_all (\<lambda>b. b < 256) bs"

text \<open>What a \<open>throw\<close> of the platform or of the code carries.\<close>

datatype exn = TypeError | SyntaxError | CryptoError | StoreError

subsection \<open>Base64: \<open>buf.toString('base64')\<close> and \<open>Buffer.from(s, 'base64')\<close>\<close>

text \<open>
  The encoder writes the standard alphabet \<open>A-Z a-z 0-9 + /\<close> and pads with \<open>=\<close>.
\<close>

definition b64_char :: "nat \<Rightarrow> nat" where
  "b64_char n =
     (if n < 26 then 65 + n
      else if n < 52 then 71 + n
      else if n < 62 then n - 4
      else if n = 62 then 43
      else 47)"

fun toString_base64 :: "buffer \<Rightarrow> jsstring" where
  "toString_base64 [] = []"
| "toString_base64 [a] =
     [b64_char (a div 4), b64_char ((a mod 4) * 16), 61, 61]"
| "toString_base64 [a, b] =
     [b64_char (a div 4), b64_char ((a mod 4) * 16 + b div 16),
      b64_char ((b mod 16) * 4), 61]"
| "toString_base64 (a # b # c # bs) =
     b64_char (a div 4) # b64_char ((a mod 4) * 16 + b div 16) #
     b64_char ((b mod 16) * 4 + c div 64) # b64_char (c mod 64) #
     toString_base64 bs"

text \<open>
  Node's decoder reads each code unit through its low byte, accepts the standard and the
  URL-safe alphabet, skips every other character, and stops at the first \<open>=\<close>. Four
  sextets give three bytes; two or three left over give one or two bytes, and the unused
  low bits of the last sextet are dropped; a single sextet left over gives nothing.
\<close>

definition unbase64 :: "nat \<Rightarrow> nat option" where
  "unbase64 c =
     (if 65 \<le> c \<and> c \<le> 90 then Some (c - 65)
      else if 97 \<le> c \<and> c \<le> 122 then Some (c - 71)
      else if 48 \<le> c \<and> c \<le> 57 then Some (c + 4)
      else if c = 43 \<or> c = 45 then Some 62
      else if c = 47 \<or> c = 95 then Some 63
      else None)"

fun b64_sextets :: "jsstring \<Rightarrow> nat list" where
  "b64_sextets [] = []"
| "b64_sextets (c # s) =
     (if c mod 256 = 61 then []
      else case unbase64 (c mod 256) of
             None \<Rightarrow> b64_sextets s
           | Some x \<Rightarrow> x # b64_sextets s)"

fun b64_bytes :: "nat list \<Rightarrow> buffer" where
  "b64_bytes (a # b # c # d # r) =
     (a * 4 + b div 16) # ((b mod 16) * 16 + c div 4) # ((c mod 4) * 64 + d) # b64_bytes r"
| "b64_bytes [a, b, c] = [a * 4 + b div 16, (b mod 16) * 16 + c div 4]"
| "b64_bytes [a, b] = [a * 4 + b div 16]"
| "b64_bytes [a] = []"
| "b64_bytes [] = []"

definition Buffer_from_base64 :: "jsstring \<Rightarrow> buffer" where
  "Buffer_from_base64 s = b64_bytes (b64_sextets s)"

subsection \<open>UTF-8: \<open>Buffer.from(s)\<close> and \<open>buf.toString()\<close>\<close>

text \<open>
  Encoding pairs a high surrogate with the low surrogate that follows it; a surrogate
  that stands alone is written as U+FFFD (\<open>EF BF BD\<close>).
\<close>

definition is_high_surrogate :: "nat \<Rightarrow> bool" where
  "is_high_surrogate u = (55296 \<le> u \<and> u < 56320)"

definition is_low_surrogate :: "nat \<Rightarrow> bool" where
  "is_low_surrogate u = (56320 \<le> u \<and> u < 57344)"

definition utf8_of_pair :: "nat \<Rightarrow> nat \<Rightarrow> buffer" where
  "utf8_of_pair h l =
     (let cp = 65536 + (h - 55296) * 1024 + (l - 56320)
      in [240 + cp div 262144, 128 + (cp div 4096) mod 64,
          128 + (cp div 64) mod 64, 128 + cp mod 64])"

fun Buffer_from_utf8 :: "jsstring \<Rightarrow> buffer" where
  "Buffer_from_utf8 [] = []"
| "Buffer_from_utf8 (u # us) =
     (if u < 128 then u # Buffer_from_utf8 us
      else if u < 2048 then (192 + u div 64) # (128 + u mod 64) # Buffer_from_utf8 us
      else if is_high_surrogate u then
        (case us of
           [] \<Rightarrow> [239, 191, 189]
         | l # us' \<Rightarrow>
             if is_low_surrogate l then utf8_of_pair u l @ Buffer_from_utf8 us'
             else [239, 191, 189] @ Buffer_from_utf8 us)
      else if is_low_surrogate u then [239, 191, 189] @ Buffer_from_utf8 us
      else (224 + u div 4096) # (128 + (u div 64) mod 64) # (128 + u mod 64) #
           Buffer_from_utf8 us)"

text \<open>
  A string is well formed when every high surrogate is followed by a low surrogate and
  no low surrogate stands elsewhere; exactly these strings survive encoding.
\<close>

fun well_formed :: "jsstring \<Rightarrow> bool" where
  "well_formed [] = True"
| "well_formed (u # us) =
     (if is_high_surrogate u then
        (case us of [] \<Rightarrow> False | l # us' \<Rightarrow> is_low_surrogate l \<and> well_formed us')
      else \<not> is_low_surrogate u \<and> u < 65536 \<and> well_formed us)"

text \<open>
  Decoding never fails: an ill-formed sequence becomes U+FFFD, one for each maximal
  prefix of a well-formed sequence, and decoding resumes at the byte that broke it. A
  code point beyond the Basic Multilingual Plane becomes a surrogate pair.
\<close>

definition is_cont :: "nat \<Rightarrow> bool" where
  "is_cont b = (128 \<le> b \<and> b \<le> 191)"

definition second_ok :: "nat \<Rightarrow> nat \<Rightarrow> bool" where
  "second_ok b b1 =
     ((if b = 224 then 160 else if b = 240 then 144 else 128) \<le> b1 \<and>
      b1 \<le> (if b = 237 then 159 else if b = 244 then 143 else 191))"

definition units_of_cp :: "nat \<Rightarrow> jsstring" where
  "units_of_cp cp =
     (if cp < 65536 then [cp]
      else [55296 + (cp - 65536) div 1024, 56320 + (cp - 65536) mod 1024])"

fun toString_utf8 :: "buffer \<Rightarrow> jsstring" where
  "toString_utf8 [] = []"
| "toString_utf8 (b # bs) =
     (if b < 128 then b # toString_utf8 bs
      else if 194 \<le> b \<and> b \<le> 223 then
        (case bs of
           [] \<Rightarrow> [65533]
         | b1 # r1 \<Rightarrow>
             if is_cont b1 then ((b - 192) * 64 + (b1 - 128)) # toString_utf8 r1
             else 65533 # toString_utf8 bs)
      else if 224 \<le> b \<and> b \<le> 239 then
        (case bs of
           [] \<Rightarrow> [65533]
         | b1 # r1 \<Rightarrow>
             if second_ok b b1 then
               (case r1 of
                  [] \<Rightarrow> [65533]
                | b2 # r2 \<Rightarrow>
                    if is_cont b2 then
                      ((b - 224) * 4096 + (b1 - 128) * 64 + (b2 - 128)) # toString_utf8 r2
                    else 65533 # toString_utf8 r1)
             else 65533 # toString_utf8 bs)
      else if 240 \<le> b \<and> b \<le> 244 then
        (case bs of
           [] \<Rightarrow> [65533]
         | b1 # r1 \<Rightarrow>
             if second_ok b b1 then
               (case r1 of
                  [] \<Rightarrow> [65533]
                | b2 # r2 \<Rightarrow>
                    if is_cont b2 then
                      (case r2 of
                         [] \<Rightarrow> [65533]
                       | b3 # r3 \<Rightarrow>
                           if is_cont b3 then
                             units_of_cp ((b - 240) * 262144 + (b1 - 128) * 4096 +
                                          (b2 - 128) * 64 + (b3 - 128)) @ toString_utf8 r3
                           else 65533 # toString_utf8 r2)
                    else 65533 # toString_utf8 r1)
             else 65533 # toString_utf8 bs)
      else 65533 # toString_utf8 bs)"

subsection \<open>JSON: \<open>JSON.stringify\<close> of a payload and \<open>JSON.parse\<close>\<close>

text \<open>
  A number is an IEEE 754 double: a rational \<open>m * 2^e\<close> with \<open>\<bar>m\<bar> < 2^53\<close> and
  \<open>-1074 \<le> e \<le> 971\<close>, an infinity, or \<open>NaN\<close>. The sign of zero is not kept: no
  operation below tells \<open>-0\<close> from \<open>0\<close>. \<open>round_double\<close> is round-to-nearest,
  ties to even, of an exact value; what rounds to \<open>2^1024\<close> or beyond is infinite.
\<close>

datatype jsnum = Num rat | NaN | PosInf | NegInf

fun bits :: "nat \<Rightarrow> nat" where
  "bits n = (if n = 0 then 0 else Suc (bits (n div 2)))"

declare bits.simps [simp del]

text \<open>The integer \<open>k\<close> with \<open>2^k \<le> a < 2^(k+1)\<close>, for \<open>a > 0\<close>.\<close>

definition ilog2 :: "rat \<Rightarrow> int" where
  "ilog2 a =
     (let d = int (bits (nat (fst (quotient_of a)))) - int (bits (nat (snd (quotient_of a))))
      in if 2 powi d \<le> a then d else d - 1)"

definition round_half_even :: "rat \<Rightarrow> int" where
  "round_half_even q =
     (let f = \<lfloor>q\<rfloor>; r = q - of_int f
      in if r < 1 / 2 then f
         else if 1 / 2 < r then f + 1
         else if even f then f else f + 1)"

definition round_double :: "rat \<Rightarrow> jsnum" where
  "round_double x =
     (if x = 0 then Num 0
      else
        (let a = \<bar>x\<bar>;
             e = max (ilog2 a - 52) (- 1074);
             y = of_int (round_half_even (a / 2 powi e)) * 2 powi e
         in if 2 ^ 1024 \<le> y then (if 0 < x then PosInf else NegInf)
            else Num (if 0 < x then y else - y)))"

text \<open>The subtraction \<open>a - b\<close> and the comparison \<open>a > b\<close> of two numbers.\<close>

definition js_minus :: "jsnum \<Rightarrow> jsnum \<Rightarrow> jsnum" where
  "js_minus a b =
     (case (a, b) of
        (Num x, Num y) \<Rightarrow> round_double (x - y)
      | (NaN, _) \<Rightarrow> NaN
      | (_, NaN) \<Rightarrow> NaN
      | (PosInf, PosInf) \<Rightarrow> NaN
      | (NegInf, NegInf) \<Rightarrow> NaN
      | (PosInf, _) \<Rightarrow> PosInf
      | (NegInf, _) \<Rightarrow> NegInf
      | (Num x, PosInf) \<Rightarrow> NegInf
      | (Num x, NegInf) \<Rightarrow> PosInf)"

definition js_greater :: "jsnum \<Rightarrow> jsnum \<Rightarrow> bool" where
  "js_greater a b =
     (case (a, b) of
        (Num x, Num y) \<Rightarrow> y < x
      | (NaN, _) \<Rightarrow> False
      | (_, NaN) \<Rightarrow> False
      | (PosInf, PosInf) \<Rightarrow> False
      | (PosInf, _) \<Rightarrow> True
      | (NegInf, _) \<Rightarrow> False
      | (Num x, PosInf) \<Rightarrow> False
      | (Num x, NegInf) \<Rightarrow> True)"

text \<open>
  A parsed JSON value. An object lists its members in the order in which the engine
  enumerates them, each key once.
\<close>

datatype json =
    JNull
  | JBool bool
  | JNum jsnum
  | JStr jsstring
  | JArr "json list"
  | JObj "(jsstring \<times> json) list"

record QRPayload =
  id_QR :: jsstring
  ts_QR :: int
  v_QR :: int

definition safe_integer :: "int \<Rightarrow> bool" where
  "safe_integer n = (\<bar>n\<bar> \<le> 9007199254740991)"

text \<open>
  \<open>QuoteJSONString\<close>: the two-character escapes, \<open>\uXXXX\<close> (lower-case hex) for the
  other control characters and for a surrogate that stands alone, everything else as
  it is.
\<close>

definition hex_digit :: "nat \<Rightarrow> nat" where
  "hex_digit d = (if d < 10 then 48 + d else 87 + d)"

definition unicode_escape :: "nat \<Rightarrow> jsstring" where
  "unicode_escape u =
     [92, 117, hex_digit (u div 4096), hex_digit ((u div 256) mod 16),
      hex_digit ((u div 16) mod 16), hex_digit (u mod 16)]"

fun quote_body :: "jsstring \<Rightarrow> jsstring" where
  "quote_body [] = []"
| "quote_body (u # us) =
     (if u = 8 then [92, 98] @ quote_body us
      else if u = 9 then [92, 116] @ quote_body us
      else if u = 10 then [92, 110] @ quote_body us
      else if u = 12 then [92, 102] @ quote_body us
      else if u = 13 then [92, 114] @ quote_body us
      else if u = 34 then [92, 34] @ quote_body us
      else if u = 92 then [92, 92] @ quote_body us
      else if u < 32 then unicode_escape u @ quote_body us
      else if is_high_surrogate u then
        (case us of
           [] \<Rightarrow> unicode_escape u
         | l # us' \<Rightarrow>
             if is_low_surrogate l then u # l # quote_body us'
             else unicode_escape u @ quote_body us)
      else if is_low_surrogate u then unicode_escape u @ quote_body us
      else u # quote_body us)"

definition QuoteJSONString :: "jsstring \<Rightarrow> jsstring" where
  "QuoteJSONString s = 34 # quote_body s @ [34]"

text \<open>\<open>Number::toString\<close> on an integer of magnitude below \<open>10^21\<close>: its decimal digits.\<close>

fun digits_of :: "nat \<Rightarrow> jsstring" where
  "digits_of n = (if n < 10 then [48 + n] else digits_of (n div 10) @ [48 + n mod 10])"

declare digits_of.simps [simp del]

definition Number_toString :: "int \<Rightarrow> jsstring" where
  "Number_toString n = (if n < 0 then 45 # digits_of (nat (- n)) else digits_of (nat n))"

text \<open>
  \<open>JSON.stringify(qrData)\<close> for \<open>qrData = {id, ts, v}\<close>: the keys in insertion order,
  no white space.
\<close>

definition JSON_stringify :: "QRPayload \<Rightarrow> jsstring" where
  \<open>JSON_stringify q =
     js ''{"id":'' @ QuoteJSONString (id_QR q) @
     js '',"ts":'' @ Number_toString (ts_QR q) @
     js '',"v":'' @ Number_toString (v_QR q) @ js ''}''\<close>

text \<open>
  \<open>JSON.parse\<close>: a lexer, then a stack machine over the tokens. The lexer's first
  argument is \<open>None\<close> between tokens and \<open>Some acc\<close> inside a string literal whose
  content so far is \<open>acc\<close>. A number is the longest run of number characters, checked
  against the JSON number grammar as a whole.
\<close>

datatype token =
    LBrace | RBrace | LBrack | RBrack | Colon | Comma
  | TStr jsstring | TNum jsnum | TTrue | TFalse | TNull

definition is_digit :: "nat \<Rightarrow> bool" where
  "is_digit c = (48 \<le> c \<and> c \<le> 57)"

definition is_numchar :: "nat \<Rightarrow> bool" where
  "is_numchar c = (is_digit c \<or> c = 43 \<or> c = 45 \<or> c = 46 \<or> c = 69 \<or> c = 101)"

definition nat_of_digits :: "jsstring \<Rightarrow> nat" where
  "nat_of_digits ds = foldl (\<lambda>a c. 10 * a + (c - 48)) 0 ds"

definition starts_with :: "nat \<Rightarrow> jsstring \<Rightarrow> bool" where
  "starts_with c s = (case s of [] \<Rightarrow> False | d # _ \<Rightarrow> d = c)"

text \<open>The exponent part: empty, or \<open>e\<close>/\<open>E\<close>, an optional sign and at least one digit.\<close>

definition exponent_of :: "jsstring \<Rightarrow> int option" where
  "exponent_of s =
     (if s = [] then Some 0
      else if starts_with 69 s \<or> starts_with 101 s then
        (let r = tl s;
             neg = starts_with 45 r;
             ds = (if starts_with 45 r \<or> starts_with 43 r then tl r else r)
         in if ds \<noteq> [] \<and> list_all is_digit ds
            then Some (if neg then - int (nat_of_digits ds) else int (nat_of_digits ds))
            else None)
      else None)"

text \<open>
  \<open>-? (0 | [1-9][0-9]*) (. [0-9]+)? ([eE] [+-]? [0-9]+)?\<close> and the double nearest to
  its value.
\<close>

definition number_of_lexeme :: "jsstring \<Rightarrow> jsnum option" where
  "number_of_lexeme s =
     (let neg = starts_with 45 s;
          s1 = (if neg then tl s else s);
          ip = takeWhile is_digit s1;
          s2 = dropWhile is_digit s1;
          dot = starts_with 46 s2;
          fp = (if dot then takeWhile is_digit (tl s2) else []);
          s3 = (if dot then dropWhile is_digit (tl s2) else s2)
      in if ip = [] \<or> (1 < length ip \<and> starts_with 48 ip) \<or> (dot \<and> fp = []) then None
         else case exponent_of s3 of
                None \<Rightarrow> None
              | Some e \<Rightarrow>
                  Some (round_double
                          ((if neg then - 1 else 1) * of_nat (nat_of_digits (ip @ fp)) *
                           10 powi (e - int (length fp)))))"

definition unescape :: "nat \<Rightarrow> nat option" where
  "unescape e =
     (if e = 34 \<or> e = 92 \<or> e = 47 then Some e
      else if e = 98 then Some 8
      else if e = 102 then Some 12
      else if e = 110 then Some 10
      else if e = 114 then Some 13
      else if e = 116 then Some 9
      else None)"

definition hex_value :: "nat \<Rightarrow> nat option" where
  "hex_value c =
     (if 48 \<le> c \<and> c \<le> 57 then Some (c - 48)
      else if 97 \<le> c \<and> c \<le> 102 then Some (c - 87)
      else if 65 \<le> c \<and> c \<le> 70 then Some (c - 55)
      else None)"

definition hex4 :: "nat \<Rightarrow> nat \<Rightarrow> nat \<Rightarrow> nat \<Rightarrow> nat option" where
  "hex4 a b c d =
     (case (hex_value a, hex_value b, hex_value c, hex_value d) of
        (Some w, Some x, Some y, Some z) \<Rightarrow> Some (w * 4096 + x * 256 + y * 16 + z)
      | _ \<Rightarrow> None)"

definition cons_tok :: "token \<Rightarrow> token list option \<Rightarrow> token list option" where
  "cons_tok t r = map_option (Cons t) r"

function lex :: "jsstring option \<Rightarrow> jsstring \<Rightarrow> token list option" where
  "lex None [] = Some []"
| "lex None (c # s) =
     (if c = 32 \<or> c = 9 \<or> c = 10 \<or> c = 13 then lex None s
      else if c = 123 then cons_tok LBrace (lex None s)
      else if c = 125 then cons_tok RBrace (lex None s)
      else if c = 91 then cons_tok LBrack (lex None s)
      else if c = 93 then cons_tok RBrack (lex None s)
      else if c = 58 then cons_tok Colon (lex None s)
      else if c = 44 then cons_tok Comma (lex None s)
      else if c = 34 then lex (Some []) s
      else if c = 45 \<or> is_digit c then
        (case number_of_lexeme (c # takeWhile is_numchar s) of
           None \<Rightarrow> None
         | Some r \<Rightarrow> cons_tok (TNum r) (lex None (dropWhile is_numchar s)))
      else if c = 116 then
        (case s of
           r # u # e # s' \<Rightarrow>
             if [r, u, e] = js ''rue'' then cons_tok TTrue (lex None s') else None
         | _ \<Rightarrow> None)
      else if c = 102 then
        (case s of
           a # l # s0 # e # s' \<Rightarrow>
             if [a, l, s0, e] = js ''alse'' then cons_tok TFalse (lex None s') else None
         | _ \<Rightarrow> None)
      else if c = 110 then
        (case s of
           u # l # l' # s' \<Rightarrow>
             if [u, l, l'] = js ''ull'' then cons_tok TNull (lex None s') else None
         | _ \<Rightarrow> None)
      else None)"
| "lex (Some acc) [] = None"
| "lex (Some acc) (c # s) =
     (if c = 34 then cons_tok (TStr acc) (lex None s)
      else if c = 92 then
        (case s of
           [] \<Rightarrow> None
         | e # s' \<Rightarrow>
             if e = 117 then
               (case s' of
                  a # b # c' # d # s'' \<Rightarrow>
                    (case hex4 a b c' d of
                       None \<Rightarrow> None
                     | Some u \<Rightarrow> lex (Some (acc @ [u])) s'')
                | _ \<Rightarrow> None)
             else
               (case unescape e of
                  None \<Rightarrow> None
                | Some u \<Rightarrow> lex (Some (acc @ [u])) s'))
      else if c < 32 then None
      else lex (Some (acc @ [c])) s)"
  by pat_completeness auto
termination
  by (relation "measure (\<lambda>(m, s). length s)")
     (auto simp: le_imp_less_Suc length_dropWhile_le)

text \<open>
  The stack machine. A frame is an array or an object under construction; \<open>FKey\<close> is an
  object whose next member has its key and waits for its value. The state says what
  may come next.
\<close>

datatype frame =
    FArr "json list"
  | FObj "(jsstring \<times> json) list"
  | FKey "(jsstring \<times> json) list" jsstring

datatype pstate =
    PValue | PArrStart | PObjStart | PKey | PColon | PAfter | PDone json

fun value_of_token :: "token \<Rightarrow> json option" where
  "value_of_token (TStr s) = Some (JStr s)"
| "value_of_token (TNum r) = Some (JNum r)"
| "value_of_token TTrue = Some (JBool True)"
| "value_of_token TFalse = Some (JBool False)"
| "value_of_token TNull = Some JNull"
| "value_of_token _ = None"

text \<open>
  Defining a member: a key the object has keeps its place and takes the new value; a
  new key that is an array index (a decimal integer below \<open>2^32 - 1\<close> in canonical
  form) goes among the array indices, which come first in ascending order; any other
  new key goes last.
\<close>

definition is_array_index :: "jsstring \<Rightarrow> bool" where
  "is_array_index k =
     (k \<noteq> [] \<and> list_all is_digit k \<and> (k = [48] \<or> \<not> starts_with 48 k) \<and>
      length k \<le> 10 \<and> nat_of_digits k < 4294967295)"

fun insert_index :: "jsstring \<Rightarrow> json \<Rightarrow> (jsstring \<times> json) list \<Rightarrow> (jsstring \<times> json) list" where
  "insert_index k x [] = [(k, x)]"
| "insert_index k x (m # ms) =
     (if is_array_index (fst m) \<and> nat_of_digits (fst m) < nat_of_digits k
      then m # insert_index k x ms
      else (k, x) # m # ms)"

definition obj_put :: "jsstring \<Rightarrow> json \<Rightarrow> (jsstring \<times> json) list \<Rightarrow> (jsstring \<times> json) list" where
  "obj_put k x ms =
     (if list_ex (\<lambda>m. fst m = k) ms then map (\<lambda>m. if fst m = k then (k, x) else m) ms
      else if is_array_index k then insert_index k x ms
      else ms @ [(k, x)])"

fun complete :: "json \<Rightarrow> frame list \<Rightarrow> (pstate \<times> frame list) option" where
  "complete x [] = Some (PDone x, [])"
| "complete x (FArr items # st) = Some (PAfter, FArr (items @ [x]) # st)"
| "complete x (FKey ms k # st) = Some (PAfter, FObj (obj_put k x ms) # st)"
| "complete x (FObj ms # st) = None"

fun open_value :: "token \<Rightarrow> frame list \<Rightarrow> (pstate \<times> frame list) option" where
  "open_value LBrack st = Some (PArrStart, FArr [] # st)"
| "open_value LBrace st = Some (PObjStart, FObj [] # st)"
| "open_value t st = (case value_of_token t of None \<Rightarrow> None | Some x \<Rightarrow> complete x st)"

definition close_array :: "frame list \<Rightarrow> (pstate \<times> frame list) option" where
  "close_array st =
     (case st of FArr items # st' \<Rightarrow> complete (JArr items) st' | _ \<Rightarrow> None)"

definition close_object :: "frame list \<Rightarrow> (pstate \<times> frame list) option" where
  "close_object st =
     (case st of FObj ms # st' \<Rightarrow> complete (JObj ms) st' | _ \<Rightarrow> None)"

definition take_key :: "jsstring \<Rightarrow> frame list \<Rightarrow> (pstate \<times> frame list) option" where
  "take_key k st =
     (case st of FObj ms # st' \<Rightarrow> Some (PColon, FKey ms k # st') | _ \<Rightarrow> None)"

definition after_comma :: "frame list \<Rightarrow> (pstate \<times> frame list) option" where
  "after_comma st =
     (case st of
        FArr items # st' \<Rightarrow> Some (PValue, st)
      | FObj ms # st' \<Rightarrow> Some (PKey, st)
      | _ \<Rightarrow> None)"

definition step :: "pstate \<Rightarrow> frame list \<Rightarrow> token \<Rightarrow> (pstate \<times> frame list) option" where
  "step p st t =
     (case p of
        PValue \<Rightarrow> open_value t st
      | PArrStart \<Rightarrow> (if t = RBrack then close_array st else open_value t st)
      | PObjStart \<Rightarrow>
          (case t of RBrace \<Rightarrow> close_object st | TStr k \<Rightarrow> take_key k st | _ \<Rightarrow> None)
      | PKey \<Rightarrow> (case t of TStr k \<Rightarrow> take_key k st | _ \<Rightarrow> None)
      | PColon \<Rightarrow> (if t = Colon then Some (PValue, st) else None)
      | PAfter \<Rightarrow>
          (case t of
             Comma \<Rightarrow> after_comma st
           | RBrack \<Rightarrow> close_array st
           | RBrace \<Rightarrow> close_object st
           | _ \<Rightarrow> None)
      | PDone x \<Rightarrow> None)"

fun run :: "pstate \<times> frame list \<Rightarrow> token list \<Rightarrow> json option" where
  "run c [] = (case c of (PDone x, []) \<Rightarrow> Some x | _ \<Rightarrow> None)"
| "run c (t # ts) = (case step (fst c) (snd c) t of None \<Rightarrow> None | Some c' \<Rightarrow> run c' ts)"

definition JSON_parse :: "jsstring \<Rightarrow> exn + json" where
  "JSON_parse s =
     (case lex None s of
        None \<Rightarrow> Inl SyntaxError
      | Some toks \<Rightarrow>
          (case run (PValue, []) toks of
             None \<Rightarrow> Inl SyntaxError
           | Some x \<Rightarrow> Inr x))"

text \<open>
  Reading a property that no built-in prototype defines (\<open>ts\<close>, \<open>id\<close>): \<open>null.ts\<close>
  throws, an object gives its own member of that name or \<open>undefined\<close>, every other
  value gives \<open>undefined\<close>. \<open>None\<close> is \<open>undefined\<close>.
\<close>

definition get_prop :: "json \<Rightarrow> jsstring \<Rightarrow> exn + json option" where
  "get_prop x k =
     (case x of
        JNull \<Rightarrow> Inl TypeError
      | JObj ms \<Rightarrow> Inr (map_of ms k)
      | _ \<Rightarrow> Inr None)"

text \<open>
  The shape the source's type \<open>QRPayload\<close> describes: an object whose \<open>id\<close> is a string
  and whose \<open>ts\<close> and \<open>v\<close> are numbers. The cast \<open>as QRPayload\<close> does not check it.
\<close>

definition is_QRPayload :: "json \<Rightarrow> bool" where
  "is_QRPayload x =
     (case x of
        JObj ms \<Rightarrow>
          (case map_of ms (js ''id'') of Some (JStr s) \<Rightarrow> True | _ \<Rightarrow> False) \<and>
          (case map_of ms (js ''ts'') of Some (JNum n) \<Rightarrow> True | _ \<Rightarrow> False) \<and>
          (case map_of ms (js ''v'') of Some (JNum n) \<Rightarrow> True | _ \<Rightarrow> False)
      | _ \<Rightarrow> False)"

definition truthy :: "json \<Rightarrow> bool" where
  "truthy x =
     (case x of
        JNull \<Rightarrow> False
      | JBool b \<Rightarrow> b
      | JNum r \<Rightarrow> r \<noteq> Num 0 \<and> r \<noteq> NaN
      | JStr s \<Rightarrow> s \<noteq> []
      | _ \<Rightarrow> True)"

section \<open>Platform operations taken as parameters\<close>

text \<open>
  The signature primitive (\<open>crypto.sign\<close> and \<open>crypto.verify\<close> with a PEM key; either
  may throw), \<open>ToNumber\<close> on a string, an array or an object (which throws a
  \<open>TypeError\<close> where the value has no callable \<open>valueOf\<close> or \<open>toString\<close>), and the
  parsing of a date string (\<open>new Date(s).getTime()\<close>, \<open>None\<close> for an invalid date) are
  not modelled: every definition below takes them as a parameter. So are two parts of
  the URL parser: the rules for the six special schemes (\<open>URL_special\<close>, given the
  scheme and the text after its colon) and the parsing and serialising of an IPv6
  address between brackets (\<open>IPv6_host\<close>, \<open>None\<close> for a failure). A \<open>URL\<close> holds
  what the code reads: \<open>protocol\<close>, \<open>hostname\<close> and the query text as written (without
  its \<open>?\<close>), from which \<open>searchParams\<close> is computed.
\<close>

record URL =
  protocol :: jsstring
  hostname :: jsstring
  query :: jsstring

record platform =
  crypto_sign :: "jsstring \<Rightarrow> buffer \<Rightarrow> exn + buffer"
  crypto_verify :: "jsstring \<Rightarrow> buffer \<Rightarrow> buffer \<Rightarrow> exn + bool"
  ToNumber_structured :: "json \<Rightarrow> exn + jsnum"
  Date_parse :: "jsstring \<Rightarrow> int option"
  URL_special :: "jsstring \<Rightarrow> jsstring \<Rightarrow> exn + URL"
  IPv6_host :: "jsstring \<Rightarrow> jsstring option"

definition ToNumber :: "platform \<Rightarrow> json option \<Rightarrow> exn + jsnum" where
  "ToNumber P x =
     (case x of
        None \<Rightarrow> Inr NaN
      | Some JNull \<Rightarrow> Inr (Num 0)
      | Some (JBool b) \<Rightarrow> Inr (Num (if b then 1 else 0))
      | Some (JNum r) \<Rightarrow> Inr r
      | Some y \<Rightarrow> ToNumber_structured P y)"

section \<open>Key material and the signed payload (\<open>server/services/qr-crypto.ts\<close>)\<close>

text \<open>
  \<open>PRIVATE_KEY\<close> and \<open>PUBLIC_KEY\<close> are read from the environment; where a variable is
  unset or empty, the key comes from a call of \<open>generateKeyPairSync\<close>. The source makes
  one call for each constant: \<open>kp1\<close> and \<open>kp2\<close> are what the two calls return.
\<close>

record keypair =
  privateKey :: jsstring
  publicKey :: jsstring

record key_material =
  PRIVATE_KEY :: jsstring
  PUBLIC_KEY :: jsstring

definition env_or :: "jsstring option \<Rightarrow> jsstring \<Rightarrow> jsstring" where
  "env_or e d = (case e of None \<Rightarrow> d | Some x \<Rightarrow> if x = [] then d else x)"

definition module_keys ::
  "jsstring option \<Rightarrow> jsstring option \<Rightarrow> keypair \<Rightarrow> keypair \<Rightarrow> key_material" where
  "module_keys QR_PRIVATE_KEY QR_PUBLIC_KEY kp1 kp2 =
     \<lparr>PRIVATE_KEY = env_or QR_PRIVATE_KEY (privateKey kp1),
      PUBLIC_KEY = env_or QR_PUBLIC_KEY (publicKey kp2)\<rparr>"

definition getPublicKey :: "key_material \<Rightarrow> jsstring" where
  "getPublicKey ks = PUBLIC_KEY ks"

text \<open>
  \<open>generateQRPayload(permitId)\<close> at time \<open>now\<close>. The result is the pair
  \<open>(payload, signature)\<close>; a throw of \<open>crypto.sign\<close> is not caught.
\<close>

definition generateQRPayload ::
  "platform \<Rightarrow> key_material \<Rightarrow> int \<Rightarrow> jsstring \<Rightarrow> exn + jsstring \<times> jsstring" where
  "generateQRPayload P ks now permitId =
     (let qrData = \<lparr>id_QR = permitId, ts_QR = now, v_QR = 1\<rparr>;
          payload = JSON_stringify qrData
      in case crypto_sign P (PRIVATE_KEY ks) (Buffer_from_utf8 payload) of
           Inl e \<Rightarrow> Inl e
         | Inr sg \<Rightarrow> Inr (toString_base64 (Buffer_from_utf8 payload), toString_base64 sg))"

definition maxAge :: int where
  "maxAge = 24 * 60 * 60 * 1000"

text \<open>
  \<open>Date.now() - qrData.ts > maxAge\<close>, on doubles; \<open>now\<close> is a time value, an integer
  of magnitude at most \<open>8.64 * 10^15\<close>, and \<open>t\<close> is \<open>qrData.ts\<close> as a number.
\<close>

definition too_old :: "int \<Rightarrow> jsnum \<Rightarrow> bool" where
  "too_old now t = js_greater (js_minus (Num (of_int now)) t) (Num (of_int maxAge))"

definition try_catch :: "exn + 'a \<Rightarrow> (exn \<Rightarrow> exn + 'a) \<Rightarrow> exn + 'a" where
  "try_catch body handler = (case body of Inl e \<Rightarrow> handler e | Inr x \<Rightarrow> Inr x)"

text \<open>
  \<open>verifyQRSignature(payload, signature)\<close> at time \<open>now\<close>: \<open>Inr None\<close> is \<open>null\<close>,
  \<open>Inr (Some qrData)\<close> the parsed payload, \<open>Inl\<close> a throw that leaves the function.
\<close>

definition verifyQRSignature ::
  "platform \<Rightarrow> key_material \<Rightarrow> int \<Rightarrow> jsstring \<Rightarrow> jsstring \<Rightarrow> exn + json option" where
  "verifyQRSignature P ks now payload signature =
     try_catch
       (let payloadBuffer = Buffer_from_base64 payload;
            signatureBuffer = Buffer_from_base64 signature
        in case crypto_verify P (PUBLIC_KEY ks) payloadBuffer signatureBuffer of
             Inl e \<Rightarrow> Inl e
           | Inr isValid \<Rightarrow>
               if \<not> isValid then Inr None
               else
                 (case JSON_parse (toString_utf8 payloadBuffer) of
                    Inl e \<Rightarrow> Inl e
                  | Inr qrData \<Rightarrow>
                      (case get_prop qrData (js ''ts'') of
                         Inl e \<Rightarrow> Inl e
                       | Inr t \<Rightarrow>
                           (case ToNumber P t of
                              Inl e \<Rightarrow> Inl e
                            | Inr n \<Rightarrow>
                                if too_old now n then Inr None
                                else Inr (Some qrData)))))
       (\<lambda>error. Inr None)"

section \<open>URLs: \<open>new URL(s)\<close> and \<open>url.searchParams.get(name)\<close>\<close>

text \<open>
  The URL parser for a string without a base: leading and trailing C0 controls and
  spaces are trimmed and every tab and newline removed; the scheme is a letter followed
  by letters, digits, \<open>+\<close>, \<open>-\<close> and \<open>.\<close>, up to a colon, in lower case; after \<open>//\<close>
  comes the authority, up to \<open>/\<close>, \<open>?\<close> or \<open>#\<close>; the query runs from \<open>?\<close> to \<open>#\<close>.
  Whatever is not a URL throws a \<open>TypeError\<close>.
\<close>

definition is_alpha :: "nat \<Rightarrow> bool" where
  "is_alpha c = ((65 \<le> c \<and> c \<le> 90) \<or> (97 \<le> c \<and> c \<le> 122))"

definition is_scheme_char :: "nat \<Rightarrow> bool" where
  "is_scheme_char c = (is_alpha c \<or> is_digit c \<or> c = 43 \<or> c = 45 \<or> c = 46)"

definition ascii_lower :: "nat \<Rightarrow> nat" where
  "ascii_lower c = (if 65 \<le> c \<and> c \<le> 90 then c + 32 else c)"

definition trim_c0 :: "jsstring \<Rightarrow> jsstring" where
  "trim_c0 s = rev (dropWhile (\<lambda>c. c \<le> 32) (rev (dropWhile (\<lambda>c. c \<le> 32) s)))"

definition strip_tab_newline :: "jsstring \<Rightarrow> jsstring" where
  "strip_tab_newline s = filter (\<lambda>c. c \<noteq> 9 \<and> c \<noteq> 10 \<and> c \<noteq> 13) s"

definition is_special_scheme :: "jsstring \<Rightarrow> bool" where
  "is_special_scheme sch =
     (sch = js ''ftp'' \<or> sch = js ''file'' \<or> sch = js ''http'' \<or> sch = js ''https'' \<or>
      sch = js ''ws'' \<or> sch = js ''wss'')"

text \<open>
  A host that is not an IPv6 address is kept as written unless it holds a forbidden
  code point; its C0 controls and everything beyond \<open>~\<close> are percent-encoded as UTF-8.
\<close>

definition forbidden_host_char :: "nat \<Rightarrow> bool" where
  "forbidden_host_char c =
     (c = 0 \<or> c = 9 \<or> c = 10 \<or> c = 13 \<or> c = 32 \<or> c = 35 \<or> c = 47 \<or> c = 58 \<or> c = 60 \<or>
      c = 62 \<or> c = 63 \<or> c = 64 \<or> c = 91 \<or> c = 92 \<or> c = 93 \<or> c = 94 \<or> c = 124)"

definition upper_hex_digit :: "nat \<Rightarrow> nat" where
  "upper_hex_digit d = (if d < 10 then 48 + d else 55 + d)"

definition percent_encode_byte :: "nat \<Rightarrow> jsstring" where
  "percent_encode_byte b =
     (if b < 32 \<or> 126 < b then [37, upper_hex_digit (b div 16), upper_hex_digit (b mod 16)]
      else [b])"

definition opaque_host :: "platform \<Rightarrow> jsstring \<Rightarrow> jsstring option" where
  "opaque_host P h =
     (if starts_with 91 h then
        (if last h = 93 then IPv6_host P (butlast (tl h)) else None)
      else if list_ex forbidden_host_char h then None
      else Some (concat (map percent_encode_byte (Buffer_from_utf8 h))))"

text \<open>
  The authority: credentials end at the last \<open>@\<close> and are dropped; a host and a port
  are separated by the first colon outside brackets; the port is at most five decimal
  digits' worth, below \<open>65536\<close>. A missing host after credentials or before a port
  fails.
\<close>

fun after_last_at :: "jsstring \<Rightarrow> jsstring" where
  "after_last_at [] = []"
| "after_last_at (c # s) = (if list_ex (\<lambda>x. x = 64) (c # s) then after_last_at s else c # s)"

fun host_part :: "bool \<Rightarrow> jsstring \<Rightarrow> jsstring" where
  "host_part inside [] = []"
| "host_part inside (c # s) =
     (if c = 58 \<and> \<not> inside then []
      else c # host_part (if c = 91 then True else if c = 93 then False else inside) s)"

definition host_of_authority :: "platform \<Rightarrow> jsstring \<Rightarrow> jsstring option" where
  "host_of_authority P a =
     (let hp = after_last_at a;
          h = host_part False hp;
          rest = drop (length h) hp
      in if list_ex (\<lambda>x. x = 64) a \<and> hp = [] then None
         else if rest = [] then opaque_host P h
         else if h = [] then None
         else if \<not> list_all is_digit (tl rest) then None
         else if 65535 < nat_of_digits (tl rest) then None
         else opaque_host P h)"

definition URL_new :: "platform \<Rightarrow> jsstring \<Rightarrow> exn + URL" where
  "URL_new P s =
     (let s1 = strip_tab_newline (trim_c0 s);
          scheme = map ascii_lower (takeWhile is_scheme_char s1);
          rest = dropWhile is_scheme_char s1
      in if s1 = [] \<or> \<not> is_alpha (hd s1) \<or> \<not> starts_with 58 rest then Inl TypeError
         else if is_special_scheme scheme then URL_special P scheme (tl rest)
         else
           (let after = tl rest;
                slashes = (take 2 after = [47, 47]);
                authority = takeWhile (\<lambda>c. c \<noteq> 47 \<and> c \<noteq> 63 \<and> c \<noteq> 35) (drop 2 after);
                rest2 = (if slashes
                         then dropWhile (\<lambda>c. c \<noteq> 47 \<and> c \<noteq> 63 \<and> c \<noteq> 35) (drop 2 after)
                         else after);
                tail = dropWhile (\<lambda>c. c \<noteq> 63 \<and> c \<noteq> 35) rest2;
                q = (if starts_with 63 tail then takeWhile (\<lambda>c. c \<noteq> 35) (tl tail) else [])
            in case (if slashes then host_of_authority P authority else Some []) of
                 None \<Rightarrow> Inl TypeError
               | Some h \<Rightarrow> Inr \<lparr>protocol = scheme @ [58], hostname = h, query = q\<rparr>))"

text \<open>
  \<open>searchParams\<close>: the query is split at \<open>&\<close>, empty pieces are dropped, each piece is
  split at its first \<open>=\<close>, and in name and value every \<open>+\<close> becomes a space before
  the percent-escapes are decoded and the bytes read as UTF-8. \<open>get\<close> gives the value of
  the first pair of that name, or \<open>null\<close>.
\<close>

fun split_on :: "nat \<Rightarrow> nat list \<Rightarrow> nat list list" where
  "split_on c [] = [[]]"
| "split_on c (x # xs) =
     (if x = c then [] # split_on c xs
      else (case split_on c xs of [] \<Rightarrow> [[x]] | p # ps \<Rightarrow> (x # p) # ps))"

fun percent_decode :: "buffer \<Rightarrow> buffer" where
  "percent_decode [] = []"
| "percent_decode (b # bs) =
     (if b = 37 then
        (case bs of
           h # l # r \<Rightarrow>
             (case (hex_value h, hex_value l) of
                (Some x, Some y) \<Rightarrow> (x * 16 + y) # percent_decode r
              | _ \<Rightarrow> b # percent_decode bs)
         | _ \<Rightarrow> b # percent_decode bs)
      else b # percent_decode bs)"

definition form_decode :: "buffer \<Rightarrow> jsstring" where
  "form_decode piece = toString_utf8 (percent_decode (map (\<lambda>b. if b = 43 then 32 else b) piece))"

definition searchParams :: "URL \<Rightarrow> (jsstring \<times> jsstring) list" where
  "searchParams u =
     map (\<lambda>piece. (form_decode (takeWhile (\<lambda>b. b \<noteq> 61) piece),
                    form_decode (drop 1 (dropWhile (\<lambda>b. b \<noteq> 61) piece))))
         (filter (\<lambda>piece. piece \<noteq> []) (split_on 38 (Buffer_from_utf8 (query u))))"

definition searchParams_get :: "URL \<Rightarrow> jsstring \<Rightarrow> jsstring option" where
  "searchParams_get u name = map_of (searchParams u) name"

section \<open>Records, the record store and the verification route\<close>

text \<open>
  The tables of \<open>shared/schema.ts\<close>, with the columns that the verification code reads
  (the other columns, and the vessel, technique and media of a full permit, are not
  read by it). The three \<open>id\<close> columns are \<open>fisher_id\<close>, \<open>permit_id\<close> and \<open>card_id\<close>.
\<close>

record Fisher =
  fisher_id :: jsstring
  nom :: jsstring
  prenoms :: jsstring
  dateNaissance :: jsstring
  telephone :: jsstring
  adresse :: jsstring
  quartierVillage :: jsstring

record Card =
  card_id :: jsstring
  permitId :: jsstring
  qrPayload :: jsstring
  qrSignature :: jsstring

record Permit =
  permit_id :: jsstring
  fisherId :: jsstring
  typePeche :: jsstring
  zonePeche :: jsstring
  numSerie :: jsstring
  dateExpiration :: jsstring

record FullPermit = Permit +
  fisher :: Fisher
  card :: "Card option"

datatype verdict = Valid | Expired | Invalid

record ScanLog =
  cardId :: "jsstring option"
  agentId :: "jsstring option"
  scanDate :: int
  log_result :: verdict
  log_mode :: jsstring

text \<open>
  \<open>MemStorage\<close>: maps from id to row; the cards and the scan logs in insertion order.
  The id that \<open>createScanLog\<close> draws is taken to be new, so each call adds an entry.
\<close>

record MemStorage =
  permits :: "jsstring \<rightharpoonup> Permit"
  fishers :: "jsstring \<rightharpoonup> Fisher"
  cards :: "Card list"
  scanLogs :: "ScanLog list"

definition getPermit :: "MemStorage \<Rightarrow> jsstring \<Rightarrow> FullPermit option" where
  "getPermit st i =
     (case permits st i of
        None \<Rightarrow> None
      | Some p \<Rightarrow>
          (case fishers st (fisherId p) of
             None \<Rightarrow> None
           | Some f \<Rightarrow>
               Some (Permit.extend p
                       (FullPermit.fields f (find (\<lambda>c. permitId c = i) (cards st))))))"

definition getCardByPermitId :: "MemStorage \<Rightarrow> jsstring \<Rightarrow> Card option" where
  "getCardByPermitId st i = find (\<lambda>c. permitId c = i) (cards st)"

definition createScanLog ::
  "MemStorage \<Rightarrow> int \<Rightarrow> jsstring option \<Rightarrow> jsstring option \<Rightarrow> verdict \<Rightarrow> jsstring \<Rightarrow> MemStorage" where
  "createScanLog st now cid aid r m =
     st\<lparr>scanLogs := scanLogs st @
          [\<lparr>cardId = cid, agentId = aid, scanDate = now, log_result = r, log_mode = m\<rparr>]\<rparr>"

text \<open>
  The body of a response, and the result of a scan (\<open>QRScanResult\<close>): the same JSON
  object on both sides of the wire. A member that is absent is \<open>None\<close>.
\<close>

record PermitView =
  fisher_V :: Fisher
  numSerie_V :: jsstring
  zonePeche_V :: jsstring
  dateExpiration_V :: jsstring
  typePeche_V :: jsstring

record QRScanResult =
  result :: "verdict option"
  permit :: "PermitView option"
  isExpired :: "bool option"
  message :: jsstring
  error_text :: "jsstring option"

record Response =
  status :: nat
  body :: QRScanResult

definition message_only :: "jsstring \<Rightarrow> QRScanResult" where
  "message_only m =
     \<lparr>result = None, permit = None, isExpired = None, message = m, error_text = None\<rparr>"

definition invalid_with :: "jsstring \<Rightarrow> QRScanResult" where
  "invalid_with m =
     \<lparr>result = Some Invalid, permit = None, isExpired = None, message = m, error_text = None\<rparr>"

definition view_of :: "FullPermit \<Rightarrow> PermitView" where
  "view_of p =
     \<lparr>fisher_V = fisher p, numSerie_V = numSerie p, zonePeche_V = zonePeche p,
      dateExpiration_V = dateExpiration p, typePeche_V = typePeche p\<rparr>"

text \<open>\<open>new Date(s) <= new Date()\<close>: false for an invalid date.\<close>

definition expired_at :: "platform \<Rightarrow> jsstring \<Rightarrow> int \<Rightarrow> bool" where
  "expired_at P s now = (case Date_parse P s of None \<Rightarrow> False | Some t \<Rightarrow> t \<le> now)"

definition falsy_string :: "jsstring option \<Rightarrow> bool" where
  "falsy_string x = (case x of None \<Rightarrow> True | Some s \<Rightarrow> s = [])"

text \<open>
  \<open>storage.getPermit(qrPayload.id)\<close>: the map has string keys, so an id that is not a
  string finds nothing.
\<close>

definition getPermit_by :: "MemStorage \<Rightarrow> json option \<Rightarrow> FullPermit option" where
  "getPermit_by st i = (case i of Some (JStr s) \<Rightarrow> getPermit st s | _ \<Rightarrow> None)"

text \<open>
  \<open>POST /api/scans/verify\<close> with \<open>req.body.qrData\<close> a string, at time \<open>now\<close>: the
  response and the store afterwards. The handler's own \<open>catch\<close> answers 500.
\<close>

definition scans_verify ::
  "platform \<Rightarrow> key_material \<Rightarrow> int \<Rightarrow> MemStorage \<Rightarrow> jsstring \<Rightarrow> Response \<times> MemStorage" where
  "scans_verify P ks now st qrData =
     (case
        try_catch
          (case URL_new P qrData of
             Inl e \<Rightarrow> Inl e
           | Inr url \<Rightarrow>
               if protocol url \<noteq> js ''peche:'' \<or> hostname url \<noteq> js ''verify'' then
                 Inr (\<lparr>status = 400, body = message_only (js ''Invalid QR code format'')\<rparr>, st)
               else
                 (let payload = searchParams_get url (js ''d'');
                      signature = searchParams_get url (js ''s'')
                  in if falsy_string payload \<or> falsy_string signature then
                       Inr (\<lparr>status = 400, body = message_only (js ''Missing QR code data'')\<rparr>, st)
                     else
                       (case verifyQRSignature P ks now (the payload) (the signature) of
                          Inl e \<Rightarrow> Inl e
                        | Inr verified \<Rightarrow>
                            if verified = None \<or> \<not> truthy (the verified) then
                              Inr (\<lparr>status = 400,
                                    body = invalid_with (js ''Invalid QR code signature'')\<rparr>, st)
                            else
                              (case get_prop (the verified) (js ''id'') of
                                 Inl e \<Rightarrow> Inl e
                               | Inr i \<Rightarrow>
                                   (case getPermit_by st i of
                                      None \<Rightarrow>
                                        Inr (\<lparr>status = 404,
                                              body = invalid_with (js ''Permit not found'')\<rparr>, st)
                                    | Some p \<Rightarrow>
                                        (let expired = expired_at P (dateExpiration p) now;
                                             r = (if expired then Expired else Valid);
                                             cid = (case card p of
                                                      None \<Rightarrow> None
                                                    | Some c \<Rightarrow>
                                                        if card_id c = [] then None
                                                        else Some (card_id c));
                                             st' = createScanLog st now cid None r (js ''online'')
                                         in Inr (\<lparr>status = 200,
                                                  body =
                                                    \<lparr>result = Some r, permit = Some (view_of p),
                                                     isExpired = Some expired,
                                                     message =
                                                       (if expired then js ''Permit has expired''
                                                        else js ''Valid permit''),
                                                     error_text = None\<rparr>\<rparr>, st')))))))
          (\<lambda>error. Inr (\<lparr>status = 500, body = message_only (js ''Failed to verify QR code'')\<rparr>, st))
      of Inl e \<Rightarrow> (\<lparr>status = 500, body = message_only (js ''Failed to verify QR code'')\<rparr>, st)
       | Inr x \<Rightarrow> x)"

text \<open>
  The URI that the card routes print: \<open>peche://verify?d=<payload>&s=<signature>\<close>, the
  two stored texts put in as they are.
\<close>

definition card_uri :: "Card \<Rightarrow> jsstring" where
  "card_uri c = js ''peche://verify?d='' @ qrPayload c @ js ''&s='' @ qrSignature c"

text \<open>
  A text is safe inside a URI when it is made of unreserved characters, percent-escapes
  and the padding character only.
\<close>

definition url_safe :: "jsstring \<Rightarrow> bool" where
  "url_safe s =
     list_all (\<lambda>c. is_alpha c \<or> is_digit c \<or> c = 45 \<or> c = 95 \<or> c = 46 \<or> c = 126 \<or>
                    c = 37 \<or> c = 61) s"

text \<open>The texts that \<open>toString('base64')\<close> writes: letters, digits, \<open>+\<close>, \<open>/\<close> and \<open>=\<close>.\<close>

definition base64_text :: "jsstring \<Rightarrow> bool" where
  "base64_text s = list_all (\<lambda>c. is_alpha c \<or> is_digit c \<or> c = 43 \<or> c = 47 \<or> c = 61) s"

section \<open>The verifying client (\<open>qr-utils\<close>, \<open>offline-storage\<close>, the service worker)\<close>

text \<open>
  The \<open>cards\<close> store of the client's database, keyed by \<open>id\<close>; \<open>db_error\<close> is what an
  open or a request of the database fails with, if it fails.
\<close>

record CacheEntry =
  entry_id :: jsstring
  entry_permitId :: jsstring
  entry_data :: FullPermit
  cachedAt :: int

record OfflineStorage =
  db_error :: "exn option"
  cards_store :: "jsstring \<rightharpoonup> CacheEntry"

definition cachePermit :: "OfflineStorage \<Rightarrow> int \<Rightarrow> FullPermit \<Rightarrow> exn + OfflineStorage" where
  "cachePermit os now p =
     (case db_error os of
        Some e \<Rightarrow> Inl e
      | None \<Rightarrow>
          Inr (os\<lparr>cards_store := (cards_store os)
                 (permit_id p \<mapsto>
                    \<lparr>entry_id = permit_id p, entry_permitId = permit_id p, entry_data = p,
                     cachedAt = now\<rparr>)\<rparr>))"

definition getCachedPermit :: "OfflineStorage \<Rightarrow> jsstring \<Rightarrow> exn + FullPermit option" where
  "getCachedPermit os i =
     (case db_error os of
        Some e \<Rightarrow> Inl e
      | None \<Rightarrow> Inr (case cards_store os i of None \<Rightarrow> None | Some r \<Rightarrow> Some (entry_data r)))"

definition startsWith :: "jsstring \<Rightarrow> jsstring \<Rightarrow> bool" where
  "startsWith s prefix = (take (length prefix) s = prefix)"

text \<open>
  \<open>verifyOffline(qrData)\<close> at time \<open>now\<close>; the module \<open>offline-storage\<close> is taken to
  load. The text \<open>e\<close> with an acute accent is the code unit 233.
\<close>

definition verifyOffline ::
  "platform \<Rightarrow> int \<Rightarrow> OfflineStorage \<Rightarrow> jsstring \<Rightarrow> exn + QRScanResult" where
  "verifyOffline P now os qrData =
     try_catch
       (case URL_new P qrData of
          Inl e \<Rightarrow> Inl e
        | Inr url \<Rightarrow>
            (let pid = searchParams_get url (js ''d'')
             in if falsy_string pid then
                  Inr (invalid_with (js ''QR code invalide - Donn'' @ [233] @ js ''es manquantes''))
                else
                  (case getCachedPermit os (the pid) of
                     Inl e \<Rightarrow> Inl e
                   | Inr cachedPermit \<Rightarrow>
                       (case cachedPermit of
                          None \<Rightarrow>
                            Inr (invalid_with
                                   (js ''Permit non trouv'' @ [233] @ js '' en cache local''))
                        | Some p \<Rightarrow>
                            (let expired = expired_at P (dateExpiration p) now
                             in Inr \<lparr>result = Some (if expired then Expired else Valid),
                                     permit = Some (view_of p),
                                     isExpired = Some expired,
                                     message =
                                       (if expired then js ''Permis expir'' @ [233]
                                        else js ''Permis valide (v'' @ [233] @
                                             js ''rification hors ligne)''),
                                     error_text = None\<rparr>)))))
       (\<lambda>error. Inr (invalid_with
                       (js ''Erreur lors de la v'' @ [233] @ js ''rification hors ligne'')))"

text \<open>
  What the page's \<open>fetch\<close> of \<open>POST /api/scans/verify\<close> gives. The network reaches the
  server, which answers, or the request fails and \<open>fetch\<close> rejects. Where the service
  worker controls the page, its handler for \<open>/api/\<close> passes a response on and turns a
  rejection of a request that is not a \<open>GET\<close> into a response 503.
\<close>

record Browser =
  onLine :: bool
  worker_controls :: bool
  network_up :: bool

definition network_fetch ::
  "platform \<Rightarrow> key_material \<Rightarrow> int \<Rightarrow> Browser \<Rightarrow> MemStorage \<Rightarrow> jsstring \<Rightarrow>
   (exn + Response) \<times> MemStorage" where
  "network_fetch P ks now br st qrData =
     (if network_up br then (Inr (fst (scans_verify P ks now st qrData)),
                             snd (scans_verify P ks now st qrData))
      else (Inl TypeError, st))"

definition worker_fetch ::
  "platform \<Rightarrow> key_material \<Rightarrow> int \<Rightarrow> Browser \<Rightarrow> MemStorage \<Rightarrow> jsstring \<Rightarrow>
   (exn + Response) \<times> MemStorage" where
  "worker_fetch P ks now br st qrData =
     (case network_fetch P ks now br st qrData of
        (Inr response, st') \<Rightarrow> (Inr response, st')
      | (Inl e, st') \<Rightarrow>
          (Inr \<lparr>status = 503,
                body = \<lparr>result = None, permit = None, isExpired = None,
                        message = js ''Cannot perform this action while offline'',
                        error_text = Some (js ''Offline'')\<rparr>\<rparr>, st'))"

definition page_fetch ::
  "platform \<Rightarrow> key_material \<Rightarrow> int \<Rightarrow> Browser \<Rightarrow> MemStorage \<Rightarrow> jsstring \<Rightarrow>
   (exn + Response) \<times> MemStorage" where
  "page_fetch P ks now br st qrData =
     (if worker_controls br then worker_fetch P ks now br st qrData
      else network_fetch P ks now br st qrData)"

definition response_ok :: "Response \<Rightarrow> bool" where
  "response_ok r = (200 \<le> status r \<and> status r \<le> 299)"

text \<open>
  \<open>verifyQRCode(qrData)\<close> at time \<open>now\<close>: the result shown to the agent and the
  server's store afterwards.
\<close>

definition verifyQRCode ::
  "platform \<Rightarrow> key_material \<Rightarrow> int \<Rightarrow> Browser \<Rightarrow> MemStorage \<Rightarrow> OfflineStorage \<Rightarrow> jsstring \<Rightarrow>
   QRScanResult \<times> MemStorage" where
  "verifyQRCode P ks now br st os qrData =
     (case
        try_catch
          (if \<not> startsWith qrData (js ''peche://verify'') then
             Inr (invalid_with (js ''QR code invalide - Format non reconnu''), st)
           else
             (case (if onLine br then page_fetch P ks now br st qrData
                    else (Inr \<lparr>status = 0, body = message_only []\<rparr>, st)) of
                (Inl e, st') \<Rightarrow> Inl e
              | (Inr response, st') \<Rightarrow>
                  if onLine br \<and> response_ok response then Inr (body response, st')
                  else
                    (case verifyOffline P now os qrData of
                       Inl e \<Rightarrow> Inl e
                     | Inr r \<Rightarrow> Inr (r, st'))))
          (\<lambda>error. Inr (invalid_with
                          (js ''Erreur lors de la v'' @ [233] @ js ''rification du QR code''), st))
      of Inl e \<Rightarrow> (invalid_with
                      (js ''Erreur lors de la v'' @ [233] @ js ''rification du QR code''), st)
       | Inr x \<Rightarrow> x)"

section \<open>A stand-in platform for concrete runs\<close>

text \<open>
  Concrete runs need concrete parameters. The stand-in signature primitive tags the data
  with two bytes computed from the key and the data and accepts exactly that tag; a
  private and a public key match when their code units have the same sum. It never
  throws. The stand-in date parser knows the two dates of the end-to-end scenario; the
  stand-in parsers for special schemes and IPv6 addresses fail on every input.
\<close>

definition standin_tag :: "jsstring \<Rightarrow> buffer \<Rightarrow> buffer" where
  "standin_tag key data = [sum_list key mod 256, sum_list data mod 256]"

definition standin_dates :: "jsstring \<Rightarrow> int option" where
  "standin_dates s =
     (if s = js ''2030-01-01'' then Some 1893456000000
      else if s = js ''2020-01-01'' then Some 1577836800000
      else None)"

definition standin_platform :: platform where
  "standin_platform =
     \<lparr>crypto_sign = (\<lambda>key data. Inr (standin_tag key data)),
      crypto_verify = (\<lambda>key data sg. Inr (sg = standin_tag key data)),
      ToNumber_structured = (\<lambda>x. Inr NaN),
      Date_parse = standin_dates,
      URL_special = (\<lambda>scheme rest. Inl TypeError),
      IPv6_host = (\<lambda>a. None)\<rparr>"

text \<open>
  A stand-in record store: one fisher, one permit \<open>R1\<close> that expires on 2030-01-01 and
  its card, which holds the credential issued for \<open>R1\<close> at \<open>1700000000000\<close> under the
  key \<open>K\<close>; the permit as \<open>getPermit\<close> returns it; and an empty client database.
\<close>

definition standin_fisher :: Fisher where
  "standin_fisher =
     \<lparr>fisher_id = js ''F1'', nom = js ''Doe'', prenoms = js ''Jo'',
      dateNaissance = js ''1990-01-01'', telephone = js ''1'', adresse = js ''a'',
      quartierVillage = js ''q''\<rparr>"

definition standin_permit :: Permit where
  "standin_permit =
     \<lparr>permit_id = js ''R1'', fisherId = js ''F1'', typePeche = js ''t'', zonePeche = js ''z'',
      numSerie = js ''S1'', dateExpiration = js ''2030-01-01''\<rparr>"

definition standin_card :: Card where
  "standin_card =
     \<lparr>card_id = js ''C1'', permitId = js ''R1'',
      qrPayload = js ''eyJpZCI6IlIxIiwidHMiOjE3MDAwMDAwMDAwMDAsInYiOjF9'',
      qrSignature = js ''S2Q=''\<rparr>"

definition standin_store :: MemStorage where
  "standin_store =
     \<lparr>permits = [js ''R1'' \<mapsto> standin_permit], fishers = [js ''F1'' \<mapsto> standin_fisher],
      cards = [standin_card], scanLogs = []\<rparr>"

definition standin_full_permit :: FullPermit where
  "standin_full_permit =
     Permit.extend standin_permit (FullPermit.fields standin_fisher (Some standin_card))"

definition empty_cache :: OfflineStorage where
  "empty_cache = \<lparr>db_error = None, cards_store = Map.empty\<rparr>"

section \<open>Properties\<close>

subsection \<open>Base64 round trip\<close>

lemma b64_char_inverse: "n < 64 \<Longrightarrow> unbase64 (b64_char n) = Some n"
  by (auto simp: unbase64_def b64_char_def)

lemma b64_char_bounds: "n < 64 \<Longrightarrow> b64_char n < 256 \<and> b64_char n \<noteq> 61"
  by (auto simp: b64_char_def)

lemma sextets_b64_char: "n < 64 \<Longrightarrow> b64_sextets (b64_char n # s) = n # b64_sextets s"
  using b64_char_bounds [of n] by (simp add: b64_char_inverse)

lemma sextets_pad: "b64_sextets (61 # s) = []"
  by simp

lemma base64_roundtrip: "buffer_ok bs \<Longrightarrow> Buffer_from_base64 (toString_base64 bs) = bs"
  unfolding Buffer_from_base64_def buffer_ok_def
proof (induction bs rule: toString_base64.induct)
  case 1
  then show ?case by simp
next
  case (2 a)
  then have "a div 4 < 64" "(a mod 4) * 16 < 64" by auto
  moreover have "a div 4 * 4 + a mod 4 = a" by presburger
  ultimately show ?case by (simp add: sextets_b64_char sextets_pad del: b64_sextets.simps)
next
  case (3 a b)
  then have "a div 4 < 64" "(a mod 4) * 16 + b div 16 < 64" "(b mod 16) * 4 < 64" by auto
  moreover have "((a mod 4) * 16 + b div 16) div 16 = a mod 4" using 3 by auto
  moreover have "((a mod 4) * 16 + b div 16) mod 16 = b div 16" using 3 by auto
  moreover have "a div 4 * 4 + a mod 4 = a" "b div 16 * 16 + b mod 16 = b" by presburger+
  ultimately show ?case by (simp add: sextets_b64_char sextets_pad del: b64_sextets.simps)
next
  case (4 a b c bs)
  then have "a div 4 < 64" "(a mod 4) * 16 + b div 16 < 64" "(b mod 16) * 4 + c div 64 < 64" "c mod 64 < 64" by auto
  moreover have "((a mod 4) * 16 + b div 16) div 16 = a mod 4" using 4 by auto
  moreover have "((a mod 4) * 16 + b div 16) mod 16 = b div 16" using 4 by auto
  moreover have "((b mod 16) * 4 + c div 64) div 4 = b mod 16" using 4 by auto
  moreover have "((b mod 16) * 4 + c div 64) mod 4 = c div 64" using 4 by auto
  moreover have "a div 4 * 4 + a mod 4 = a" "b div 16 * 16 + b mod 16 = b"
    "c div 64 * 64 + c mod 64 = c" by presburger+
  ultimately show ?case using 4 by (simp add: sextets_b64_char sextets_pad del: b64_sextets.simps)
qed

subsection \<open>UTF-8 round trip\<close>

lemma split_64_64: "(u::nat) div 4096 * 4096 + (u div 64) mod 64 * 64 + u mod 64 = u"
proof -
  have "u mod 4096 = 64 * (u div 64 mod 64) + u mod 64"
    using mod_mult2_eq [of u 64 64] by simp
  moreover have "u div 4096 * 4096 + u mod 4096 = u" by (rule div_mult_mod_eq)
  ultimately show ?thesis by simp
qed

lemma split_64_64_64:
  "(u::nat) div 262144 * 262144 + (u div 4096) mod 64 * 4096 + (u div 64) mod 64 * 64 + u mod 64 = u"
proof -
  have "u mod 262144 = 4096 * (u div 4096 mod 64) + u mod 4096"
    using mod_mult2_eq [of u 4096 64] by simp
  moreover have "u mod 4096 = 64 * (u div 64 mod 64) + u mod 64"
    using mod_mult2_eq [of u 64 64] by simp
  moreover have "u div 262144 * 262144 + u mod 262144 = u" by (rule div_mult_mod_eq)
  ultimately show ?thesis by simp
qed

lemma div_mod_window:
  "(k::nat) * 64 \<le> q \<Longrightarrow> q < k * 64 + 64 \<Longrightarrow> q mod 64 = q - k * 64"
  by (metis add.commute le_add_diff_inverse mod_less mod_mult_self3 nat_add_left_cancel_less)

lemma two_byte: "128 \<le> u \<Longrightarrow> u < 2048 \<Longrightarrow>
   toString_utf8 ((192 + u div 64) # (128 + u mod 64) # bs) = u # toString_utf8 bs"
proof -
  assume a: "128 \<le> u" "u < 2048"
  then have "2 \<le> u div 64" "u div 64 < 32" by auto
  moreover have "u div 64 * 64 + u mod 64 = u" by (rule div_mult_mod_eq)
  ultimately show ?thesis by (simp add: is_cont_def)
qed

lemma three_byte_second:
  assumes "2048 \<le> u" "u < 65536" "\<not> is_high_surrogate u" "\<not> is_low_surrogate u"
  shows "second_ok (224 + u div 4096) (128 + (u div 64) mod 64)"
proof -
  have m: "(u div 64) mod 64 < 64" by simp
  have lo: "u div 4096 = 0 \<Longrightarrow> 32 \<le> (u div 64) mod 64"
  proof -
    assume "u div 4096 = 0"
    then have "u < 4096" by (simp add: div_eq_0_iff)
    then have "u div 64 < 64" "32 \<le> u div 64" using assms(1) by auto
    then show ?thesis by simp
  qed
  have hi: "u div 4096 = 13 \<Longrightarrow> (u div 64) mod 64 < 32"
  proof -
    assume h: "u div 4096 = 13"
    have "u div 4096 * 4096 + u mod 4096 = u" by (rule div_mult_mod_eq)
    then have "53248 \<le> u" "u < 57344" using h by auto
    moreover have "u < 55296"
      using assms(3-4) \<open>u < 57344\<close> by (auto simp: is_high_surrogate_def is_low_surrogate_def)
    ultimately have "13 * 64 \<le> u div 64" "u div 64 < 13 * 64 + 64" "u div 64 < 864" by auto
    then have "(u div 64) mod 64 = u div 64 - 13 * 64" by (intro div_mod_window) auto
    then show ?thesis using \<open>u div 64 < 864\<close> by simp
  qed
  have "u div 4096 < 16" using assms(2) by auto
  then show ?thesis using m lo hi unfolding second_ok_def by auto
qed

lemma three_byte:
  assumes "2048 \<le> u" "u < 65536" "\<not> is_high_surrogate u" "\<not> is_low_surrogate u"
  shows "toString_utf8 ((224 + u div 4096) # (128 + (u div 64) mod 64) # (128 + u mod 64) # bs)
           = u # toString_utf8 bs"
proof -
  have r: "u div 4096 < 16" using assms(2) by auto
  show ?thesis
    using r three_byte_second [OF assms] split_64_64 [of u] by (simp add: is_cont_def)
qed

lemma four_byte_second:
  assumes "65536 \<le> cp" "cp < 1114112"
  shows "second_ok (240 + cp div 262144) (128 + (cp div 4096) mod 64)"
proof -
  have m: "(cp div 4096) mod 64 < 64" by simp
  have lo: "cp div 262144 = 0 \<Longrightarrow> 16 \<le> (cp div 4096) mod 64"
  proof -
    assume "cp div 262144 = 0"
    then have "cp < 262144" by (simp add: div_eq_0_iff)
    then have "cp div 4096 < 64" "16 \<le> cp div 4096" using assms(1) by auto
    then show ?thesis by simp
  qed
  have hi: "cp div 262144 = 4 \<Longrightarrow> (cp div 4096) mod 64 < 16"
  proof -
    assume h: "cp div 262144 = 4"
    have "cp div 262144 * 262144 + cp mod 262144 = cp" by (rule div_mult_mod_eq)
    then have "1048576 \<le> cp" using h by auto
    then have "4 * 64 \<le> cp div 4096" "cp div 4096 < 4 * 64 + 64" "cp div 4096 < 272"
      using assms(2) by auto
    then have "(cp div 4096) mod 64 = cp div 4096 - 4 * 64" by (intro div_mod_window) auto
    then show ?thesis using \<open>cp div 4096 < 272\<close> by simp
  qed
  have "cp div 262144 \<le> 4" using assms(2) by auto
  then show ?thesis using m lo hi unfolding second_ok_def by auto
qed

lemma units_of_pair:
  assumes "is_high_surrogate h" "is_low_surrogate l"
  shows "units_of_cp (65536 + (h - 55296) * 1024 + (l - 56320)) = [h, l]"
proof -
  define a where "a = h - 55296"
  define b where "b = l - 56320"
  have hl: "h = 55296 + a" "l = 56320 + b" "b < 1024"
    using assms unfolding a_def b_def is_high_surrogate_def is_low_surrogate_def by auto
  have "(a * 1024 + b) div 1024 = a" "(a * 1024 + b) mod 1024 = b" using hl(3) by auto
  then show ?thesis
    unfolding units_of_cp_def a_def [symmetric] b_def [symmetric] using hl by simp
qed

lemma four_byte:
  assumes "is_high_surrogate h" "is_low_surrogate l"
  shows "toString_utf8 (utf8_of_pair h l @ bs) = h # l # toString_utf8 bs"
proof -
  define cp where "cp = 65536 + (h - 55296) * 1024 + (l - 56320)"
  have b: "65536 \<le> cp" "cp < 1114112"
    using assms unfolding cp_def is_high_surrogate_def is_low_surrogate_def by auto
  then have r: "cp div 262144 \<le> 4" by auto
  have u: "units_of_cp cp = [h, l]" unfolding cp_def by (rule units_of_pair [OF assms])
  have "cp mod 64 < 64" "cp div 64 mod 64 < 64" by simp_all
  then have m: "cp mod 64 \<le> 63" "cp div 64 mod 64 \<le> 63" by linarith+
  have "utf8_of_pair h l = [240 + cp div 262144, 128 + (cp div 4096) mod 64,
          128 + (cp div 64) mod 64, 128 + cp mod 64]"
    by (simp add: utf8_of_pair_def cp_def Let_def)
  then show ?thesis
    using r four_byte_second [OF b] split_64_64_64 [of cp] u m
    by (simp add: is_cont_def)
qed

lemma utf8_roundtrip: "well_formed s \<Longrightarrow> toString_utf8 (Buffer_from_utf8 s) = s"
proof (induction s rule: well_formed.induct)
  case 1
  then show ?case by simp
next
  case (2 u us)
  show ?case
  proof (cases "is_high_surrogate u")
    case True
    then obtain l us' where us: "us = l # us'" "is_low_surrogate l" "well_formed us'"
      using 2(3) by (cases us) auto
    then have "toString_utf8 (Buffer_from_utf8 us') = us'" using 2(1) True by simp
    moreover have "\<not> u < 2048" "\<not> u < 128" using True by (simp_all add: is_high_surrogate_def)
    ultimately show ?thesis
      using True us four_byte [of u l] by (simp del: toString_utf8.simps)
  next
    case False
    then have w: "\<not> is_low_surrogate u" "u < 65536" "well_formed us" using 2(3) by auto
    then have ih: "toString_utf8 (Buffer_from_utf8 us) = us" using 2(2) False by simp
    show ?thesis
    proof (cases "u < 128")
      case True
      then show ?thesis using ih by simp
    next
      case n1: False
      show ?thesis
      proof (cases "u < 2048")
        case True
        then show ?thesis using n1 ih two_byte [of u] by (simp del: toString_utf8.simps)
      next
        case n2: False
        then show ?thesis
          using n1 False w ih three_byte [of u] by (simp del: toString_utf8.simps)
      qed
    qed
  qed
qed

lemma utf8_of_pair_ok:
  assumes "is_high_surrogate h" "is_low_surrogate l"
  shows "buffer_ok (utf8_of_pair h l)"
proof -
  define cp where "cp = 65536 + (h - 55296) * 1024 + (l - 56320)"
  have "cp < 1114112"
    using assms unfolding cp_def is_high_surrogate_def is_low_surrogate_def by auto
  then have "cp div 262144 \<le> 4" by auto
  moreover have "cp div 4096 mod 64 < 64" "cp div 64 mod 64 < 64" "cp mod 64 < 64" by simp_all
  then have "cp div 4096 mod 64 < 128" "cp div 64 mod 64 < 128" "cp mod 64 < 128" by linarith+
  moreover have "utf8_of_pair h l = [240 + cp div 262144, 128 + (cp div 4096) mod 64,
          128 + (cp div 64) mod 64, 128 + cp mod 64]"
    by (simp add: utf8_of_pair_def cp_def Let_def)
  ultimately show ?thesis by (simp add: buffer_ok_def)
qed

lemma buffer_ok_append: "buffer_ok (a @ b) = (buffer_ok a \<and> buffer_ok b)"
  by (simp add: buffer_ok_def)

lemma utf8_bytes_ok: "jsstring_ok s \<Longrightarrow> buffer_ok (Buffer_from_utf8 s)"
proof (induction s rule: Buffer_from_utf8.induct)
  case 1
  then show ?case by (simp add: buffer_ok_def)
next
  case (2 u us)
  from "2.prems" have ok: "u < 65536" "jsstring_ok us" by (simp_all add: jsstring_ok_def)
  have "u mod 64 < 64" "u div 64 mod 64 < 64" by simp_all
  then have m: "u mod 64 < 128" "u div 64 mod 64 < 128" by linarith+
  show ?case
  proof (cases "u < 128")
    case True
    then show ?thesis using "2.IH"(1) ok by (simp add: buffer_ok_def)
  next
    case n1: False
    show ?thesis
    proof (cases "u < 2048")
      case True
      then have "u div 64 < 32" by auto
      then show ?thesis using n1 True "2.IH"(2) ok m by (simp add: buffer_ok_def)
    next
      case n2: False
      show ?thesis
      proof (cases "is_high_surrogate u")
        case True
        show ?thesis
        proof (cases us)
          case Nil
          then show ?thesis using n1 n2 True by (simp add: buffer_ok_def)
        next
          case (Cons l us')
          have eq: "Buffer_from_utf8 (u # l # us') =
                      (if is_low_surrogate l then utf8_of_pair u l @ Buffer_from_utf8 us'
                       else [239, 191, 189] @ Buffer_from_utf8 (l # us'))"
            using Buffer_from_utf8.simps(2) [of u "l # us'"] n1 n2 True
            by (simp del: Buffer_from_utf8.simps)
          have ok': "jsstring_ok us'" using ok Cons by (simp add: jsstring_ok_def)
          show ?thesis
          proof (cases "is_low_surrogate l")
            case low: True
            then have "buffer_ok (Buffer_from_utf8 us')"
              using "2.IH"(3) [of l us'] n1 n2 True Cons ok' by simp
            then show ?thesis
              using eq low Cons utf8_of_pair_ok [OF True low] by (simp add: buffer_ok_append)
          next
            case nolow: False
            then have "buffer_ok (Buffer_from_utf8 (l # us'))"
              using "2.IH"(4) [of l us'] n1 n2 True Cons ok by simp
            then show ?thesis
              using eq nolow Cons
              by (simp add: buffer_ok_append del: Buffer_from_utf8.simps) (simp add: buffer_ok_def)
          qed
        qed
      next
        case n3: False
        show ?thesis
        proof (cases "is_low_surrogate u")
          case True
          then show ?thesis using n1 n2 n3 "2.IH"(5) ok by (simp add: buffer_ok_def)
        next
          case False
          have "u div 4096 < 16" using ok by auto
          then show ?thesis using n1 n2 n3 False "2.IH"(6) ok m by (simp add: buffer_ok_def)
        qed
      qed
    qed
  qed
qed

subsection \<open>JSON round trip of a payload\<close>

lemma hex_value_digit: "d < 16 \<Longrightarrow> hex_value (hex_digit d) = Some d"
  by (auto simp: hex_value_def hex_digit_def)

lemma hex4_escape:
  assumes "u < 65536"
  shows "hex4 (hex_digit (u div 4096)) (hex_digit ((u div 256) mod 16))
           (hex_digit ((u div 16) mod 16)) (hex_digit (u mod 16)) = Some u"
proof -
  have "u div 4096 < 16" using assms by auto
  moreover have "u mod 4096 = 256 * (u div 256 mod 16) + u mod 256"
    using mod_mult2_eq [of u 256 16] by simp
  moreover have "u mod 256 = 16 * (u div 16 mod 16) + u mod 16"
    using mod_mult2_eq [of u 16 16] by simp
  moreover have "u div 4096 * 4096 + u mod 4096 = u" by (rule div_mult_mod_eq)
  ultimately have "u div 4096 < 16"
    "u div 4096 * 4096 + (u div 256) mod 16 * 256 + (u div 16) mod 16 * 16 + u mod 16 = u"
    by simp_all
  moreover have "u div 256 mod 16 < 16" "u div 16 mod 16 < 16" "u mod 16 < 16" by simp_all
  ultimately show ?thesis by (simp add: hex4_def hex_value_digit)
qed

lemma lex_unicode_escape:
  "u < 65536 \<Longrightarrow> lex (Some acc) (unicode_escape u @ r) = lex (Some (acc @ [u])) r"
  by (simp add: unicode_escape_def hex4_escape)

lemma lex_plain:
  "32 \<le> u \<Longrightarrow> u \<noteq> 34 \<Longrightarrow> u \<noteq> 92 \<Longrightarrow> lex (Some acc) (u # r) = lex (Some (acc @ [u])) r"
  by simp

lemma lex_short_escape:
  "unescape e = Some u \<Longrightarrow> e \<noteq> 117 \<Longrightarrow> lex (Some acc) (92 # e # r) = lex (Some (acc @ [u])) r"
  by simp

lemma lex_quote_body:
  "jsstring_ok s \<Longrightarrow>
   lex (Some acc) (quote_body s @ 34 # r) = cons_tok (TStr (acc @ s)) (lex None r)"
proof (induction s arbitrary: acc rule: quote_body.induct)
  case 1
  then show ?case by simp
next
  case (2 u us)
  from 2(13) have ok: "u < 65536" "jsstring_ok us" by (simp_all add: jsstring_ok_def)
  have d: "u < 32 \<or> 32 \<le> u" by arith
  consider (esc) "u = 8 \<or> u = 9 \<or> u = 10 \<or> u = 12 \<or> u = 13 \<or> u = 34 \<or> u = 92"
    | (ctl) "u < 32" "\<not> (u = 8 \<or> u = 9 \<or> u = 10 \<or> u = 12 \<or> u = 13)"
    | (pair) l us' where "is_high_surrogate u" "us = l # us'" "is_low_surrogate l"
    | (lone_high) "is_high_surrogate u" "us = [] \<or> \<not> is_low_surrogate (hd us)"
    | (lone_low) "is_low_surrogate u"
    | (plain) "32 \<le> u" "u \<noteq> 34" "u \<noteq> 92" "\<not> is_high_surrogate u" "\<not> is_low_surrogate u"
    using d by (cases us) (simp_all, blast+)
  then show ?case
  proof cases
    case esc
    then show ?thesis using 2(1-7) ok
      by (auto simp: unescape_def simp del: lex.simps simp add: lex_short_escape)
  next
    case ctl
    then show ?thesis using 2(8) ok by (auto simp: lex_unicode_escape simp del: lex.simps)
  next
    case pair
    then have "jsstring_ok us'" using ok by (simp add: jsstring_ok_def)
    moreover have "32 \<le> u" "u \<noteq> 34" "u \<noteq> 92" "32 \<le> l" "l \<noteq> 34" "l \<noteq> 92" "\<not> u < 32"
      using pair by (auto simp: is_high_surrogate_def is_low_surrogate_def)
    ultimately show ?thesis using 2(9) [of l us'] pair
      by (simp add: lex_plain del: lex.simps)
  next
    case lone_high
    then have n: "32 \<le> u" "u \<noteq> 34" "u \<noteq> 92" "\<not> u < 32"
      by (auto simp: is_high_surrogate_def)
    show ?thesis
    proof (cases us)
      case Nil
      then show ?thesis using lone_high n ok
        by (simp add: lex_unicode_escape del: lex.simps) (simp add: cons_tok_def)
    next
      case (Cons l us')
      then show ?thesis using lone_high n ok 2(10) [of l us']
        by (simp add: lex_unicode_escape del: lex.simps)
    qed
  next
    case lone_low
    then have n: "32 \<le> u" "u \<noteq> 34" "u \<noteq> 92" "\<not> u < 32" "\<not> is_high_surrogate u"
      by (auto simp: is_high_surrogate_def is_low_surrogate_def)
    then show ?thesis using lone_low ok 2(11)
      by (simp add: lex_unicode_escape del: lex.simps)
  next
    case plain
    then show ?thesis using ok 2(12)
      by (simp add: lex_plain del: lex.simps)
  qed
qed

subsection \<open>Doubles: integers below \<open>2^53\<close> are exact\<close>

lemma bits_bound: "n < 2 ^ k \<Longrightarrow> bits n \<le> k"
proof (induction k arbitrary: n)
  case 0
  then show ?case by (simp add: bits.simps)
next
  case (Suc k)
  show ?case
  proof (cases "n = 0")
    case True
    then show ?thesis by (simp add: bits.simps)
  next
    case False
    have "n div 2 < 2 ^ k" using Suc.prems by auto
    then have "bits (n div 2) \<le> k" by (rule Suc.IH)
    then show ?thesis using False by (subst bits.simps) simp
  qed
qed

lemma round_half_even_int: "round_half_even (of_int z) = z"
  by (simp add: round_half_even_def)

lemma round_double_nat:
  assumes "n < 2 ^ 53"
  shows "round_double (of_nat n) = Num (of_nat n)"
proof (cases "n = 0")
  case True
  then show ?thesis by (simp add: round_double_def)
next
  case False
  define a :: rat where "a = of_nat n"
  have apos: "0 < a" using False by (simp add: a_def)
  have q: "quotient_of a = (int n, 1)"
    unfolding a_def using quotient_of_int [of "int n"] by simp
  have b1: "bits (nat 1) = 1" by (simp add: bits.simps)
  have "bits n \<le> 53" using assms by (rule bits_bound)
  then have "ilog2 a \<le> 52" unfolding ilog2_def q using b1 by (simp add: Let_def)
  define e where "e = max (ilog2 a - 52) (- 1074)"
  have e: "e \<le> 0" using \<open>ilog2 a \<le> 52\<close> by (simp add: e_def)
  define k where "k = nat (- e)"
  have ek: "e = - int k" using e by (simp add: k_def)
  have p: "(2::rat) powi e = 1 / 2 ^ k" by (simp add: ek power_int_minus field_simps)
  have "a / 2 powi e = of_int (int n * 2 ^ k)" by (simp add: p a_def)
  then have r: "round_half_even (a / 2 powi e) = int n * 2 ^ k"
    using round_half_even_int by metis
  have y: "of_int (int n * 2 ^ k) * (2::rat) powi e = a" by (simp add: p a_def)
  have "a < 2 ^ 53" using assms unfolding a_def
    by (metis of_nat_less_iff of_nat_numeral of_nat_power)
  also have "\<dots> \<le> (2::rat) ^ 1024" by (rule power_increasing) simp_all
  finally have lt: "\<not> 2 ^ 1024 \<le> a" by simp
  have "round_double a = Num a"
    unfolding round_double_def using apos lt r y
    by (simp add: Let_def e_def [symmetric])
  then show ?thesis by (simp add: a_def)
qed

lemma round_double_neg_nat:
  assumes "n < 2 ^ 53"
  shows "round_double (- of_nat n) = Num (- of_nat n)"
proof (cases "n = 0")
  case True
  then show ?thesis by (simp add: round_double_def)
next
  case False
  have "round_double (of_nat n) = Num (of_nat n)" using assms by (rule round_double_nat)
  then show ?thesis using False
    by (simp add: round_double_def Let_def split: if_splits)
qed

lemma round_double_int:
  assumes "safe_integer n"
  shows "round_double (of_int n) = Num (of_int n)"
proof (cases "0 \<le> n")
  case True
  then have "nat n < 2 ^ 53" using assms by (simp add: safe_integer_def)
  then show ?thesis using round_double_nat [of "nat n"] True by simp
next
  case False
  then have "nat (- n) < 2 ^ 53" using assms by (simp add: safe_integer_def)
  then show ?thesis using round_double_neg_nat [of "nat (- n)"] False by simp
qed

subsection \<open>Decimal integers\<close>

lemma digits_all: "list_all is_digit (digits_of n)"
proof (induction n rule: digits_of.induct)
  case (1 n)
  have "n mod 10 < 10" by simp
  then have "is_digit (48 + n mod 10)" "n < 10 \<Longrightarrow> is_digit (48 + n)"
    by (auto simp: is_digit_def)
  then show ?case using 1 by (subst digits_of.simps) simp
qed

lemma digits_nonempty: "digits_of n \<noteq> []"
  by (subst digits_of.simps) simp

lemma nat_of_digits_snoc: "nat_of_digits (ds @ [c]) = 10 * nat_of_digits ds + (c - 48)"
  by (simp add: nat_of_digits_def)

lemma nat_of_digits_digits: "nat_of_digits (digits_of n) = n"
proof (induction n rule: digits_of.induct)
  case (1 n)
  show ?case
  proof (cases "n < 10")
    case True
    then show ?thesis by (subst digits_of.simps) (simp add: nat_of_digits_def)
  next
    case False
    then have "nat_of_digits (digits_of (n div 10)) = n div 10" using 1 by simp
    then show ?thesis using False
      by (subst digits_of.simps) (simp add: nat_of_digits_snoc)
  qed
qed

lemma starts_with_append: "xs \<noteq> [] \<Longrightarrow> starts_with c (xs @ ys) = starts_with c xs"
  by (cases xs) (simp_all add: starts_with_def)

lemma digits_no_leading_zero: "1 < length (digits_of n) \<Longrightarrow> \<not> starts_with 48 (digits_of n)"
proof (induction n rule: digits_of.induct)
  case (1 n)
  show ?case
  proof (cases "n < 10")
    case True
    then have "digits_of n = [48 + n]" by (subst digits_of.simps) simp
    then show ?thesis using "1.prems" by simp
  next
    case False
    then have eq: "digits_of n = digits_of (n div 10) @ [48 + n mod 10]"
      by (subst digits_of.simps) simp
    have "\<not> starts_with 48 (digits_of (n div 10))"
    proof (cases "n div 10 < 10")
      case True
      then have "digits_of (n div 10) = [48 + n div 10]" by (subst digits_of.simps) simp
      moreover have "0 < n div 10" using False by auto
      ultimately show ?thesis by (simp add: starts_with_def)
    next
      case f: False
      then have "digits_of (n div 10) = digits_of (n div 10 div 10) @ [48 + n div 10 mod 10]"
        by (subst digits_of.simps) simp
      then have "1 < length (digits_of (n div 10))"
        using digits_nonempty [of "n div 10 div 10"] by (cases "digits_of (n div 10 div 10)") auto
      then show ?thesis using "1.IH" False by simp
    qed
    then show ?thesis using eq digits_nonempty [of "n div 10"] by (simp add: starts_with_append)
  qed
qed


lemma digits_not_minus: "\<not> starts_with 45 (digits_of n)"
  using digits_all [of n] by (cases "digits_of n") (auto simp: starts_with_def is_digit_def)

lemma takeWhile_all: "list_all P xs \<Longrightarrow> takeWhile P xs = xs"
  by (induction xs) auto

lemma dropWhile_all: "list_all P xs \<Longrightarrow> dropWhile P xs = []"
  by (induction xs) auto

lemma digits_numchars: "list_all is_numchar (digits_of n)"
  using digits_all [of n] by (simp add: list_all_iff is_numchar_def)


lemma number_of_digit_string:
  assumes "list_all is_digit ds" "ds \<noteq> []" "\<not> (1 < length ds \<and> starts_with 48 ds)"
  shows "number_of_lexeme ds = Some (round_double (of_nat (nat_of_digits ds)))"
proof -
  have m: "\<not> starts_with 45 ds"
    using assms(1,2) by (cases ds) (auto simp: starts_with_def is_digit_def)
  have t: "takeWhile is_digit ds = ds" "dropWhile is_digit ds = []"
    using assms(1) by (simp_all add: takeWhile_all dropWhile_all)
  have d: "\<not> starts_with 46 []" by (simp add: starts_with_def)
  have e: "exponent_of [] = Some 0" by (simp add: exponent_of_def)
  show ?thesis
    using assms(2,3) by (simp add: number_of_lexeme_def Let_def m t d e)
qed

lemma number_of_minus_digit_string:
  assumes "list_all is_digit ds" "ds \<noteq> []" "\<not> (1 < length ds \<and> starts_with 48 ds)"
  shows "number_of_lexeme (45 # ds) = Some (round_double (- of_nat (nat_of_digits ds)))"
proof -
  have m: "starts_with 45 (45 # ds)" by (simp add: starts_with_def)
  have t: "takeWhile is_digit ds = ds" "dropWhile is_digit ds = []"
    using assms(1) by (simp_all add: takeWhile_all dropWhile_all)
  have d: "\<not> starts_with 46 []" by (simp add: starts_with_def)
  have e: "exponent_of [] = Some 0" by (simp add: exponent_of_def)
  show ?thesis
    using assms(2,3) by (simp add: number_of_lexeme_def Let_def m t d e)
qed

lemma number_Number_toString:
  assumes "safe_integer n"
  shows "number_of_lexeme (Number_toString n) = Some (Num (of_int n))"
proof (cases "n < 0")
  case True
  have "number_of_lexeme (45 # digits_of (nat (- n))) =
          Some (round_double (- of_nat (nat_of_digits (digits_of (nat (- n))))))"
    using digits_all digits_nonempty digits_no_leading_zero
    by (intro number_of_minus_digit_string) auto
  moreover have "- of_nat (nat (- n)) = (of_int n :: rat)" using True by simp
  ultimately show ?thesis
    using True round_double_int [OF assms]
    by (simp add: Number_toString_def nat_of_digits_digits)
next
  case False
  have "number_of_lexeme (digits_of (nat n)) =
          Some (round_double (of_nat (nat_of_digits (digits_of (nat n)))))"
    using digits_all digits_nonempty digits_no_leading_zero
    by (intro number_of_digit_string) auto
  moreover have "of_nat (nat n) = (of_int n :: rat)" using False by simp
  ultimately show ?thesis
    using False round_double_int [OF assms]
    by (simp add: Number_toString_def nat_of_digits_digits)
qed

lemma Number_toString_shape:
  "\<exists>d ds. Number_toString n = d # ds \<and> (d = 45 \<or> is_digit d) \<and> list_all is_numchar ds"
proof (cases "n < 0")
  case True
  then show ?thesis using digits_numchars [of "nat (- n)"] by (simp add: Number_toString_def)
next
  case False
  obtain d ds where e: "digits_of (nat n) = d # ds"
    using digits_nonempty [of "nat n"] by (cases "digits_of (nat n)") auto
  then have "is_digit d" "list_all is_numchar ds"
    using digits_all [of "nat n"] digits_numchars [of "nat n"] by simp_all
  then show ?thesis using False e by (simp add: Number_toString_def)
qed

lemma takeWhile_stop: "list_all P xs \<Longrightarrow> \<not> P c \<Longrightarrow> takeWhile P (xs @ c # r) = xs"
  by (induction xs) auto

lemma dropWhile_stop: "list_all P xs \<Longrightarrow> \<not> P c \<Longrightarrow> dropWhile P (xs @ c # r) = c # r"
  by (induction xs) auto

lemma lex_number:
  assumes "safe_integer n" "\<not> is_numchar c"
  shows "lex None (Number_toString n @ c # r) = cons_tok (TNum (Num (of_int n))) (lex None (c # r))"
proof -
  obtain d ds where s: "Number_toString n = d # ds" "d = 45 \<or> is_digit d" "list_all is_numchar ds"
    using Number_toString_shape by blast
  have t: "takeWhile is_numchar (ds @ c # r) = ds" "dropWhile is_numchar (ds @ c # r) = c # r"
    using s(3) assms(2) by (simp_all add: takeWhile_stop dropWhile_stop)
  have n: "number_of_lexeme (d # ds) = Some (Num (of_int n))"
    using number_Number_toString [OF assms(1)] s(1) by simp
  have d: "d \<noteq> 32" "d \<noteq> 9" "d \<noteq> 10" "d \<noteq> 13" "d \<noteq> 123" "d \<noteq> 125" "d \<noteq> 91" "d \<noteq> 93"
    "d \<noteq> 58" "d \<noteq> 44" "d \<noteq> 34"
    using s(2) by (auto simp: is_digit_def)
  show ?thesis
    using lex.simps(2) [of d "ds @ c # r"] s(1,2) d
    by (simp add: t n del: lex.simps)
qed

lemma lex_stringify:
  assumes "jsstring_ok rid" "safe_integer t" "safe_integer v"
  shows "lex None (JSON_stringify \<lparr>id_QR = rid, ts_QR = t, v_QR = v\<rparr>) =
           Some [LBrace, TStr (js ''id''), Colon, TStr rid, Comma,
                 TStr (js ''ts''), Colon, TNum (Num (of_int t)), Comma,
                 TStr (js ''v''), Colon, TNum (Num (of_int v)), RBrace]"
  using assms
  by (simp add: JSON_stringify_def QuoteJSONString_def js_def lex_quote_body lex_number
      is_numchar_def is_digit_def cons_tok_def)

theorem JSON_parse_stringify:
  assumes "jsstring_ok rid" "safe_integer t" "safe_integer v"
  shows "JSON_parse (JSON_stringify \<lparr>id_QR = rid, ts_QR = t, v_QR = v\<rparr>) =
           Inr (JObj [(js ''id'', JStr rid), (js ''ts'', JNum (Num (of_int t))),
                      (js ''v'', JNum (Num (of_int v)))])"
  unfolding JSON_parse_def lex_stringify [OF assms]
  by (simp add: step_def take_key_def after_comma_def close_object_def obj_put_def
      is_array_index_def is_digit_def js_def)

subsection \<open>The JSON text of a payload survives encoding\<close>

lemma well_formed_ascii: "list_all (\<lambda>u. u < 128) a \<Longrightarrow> well_formed (a @ b) = well_formed b"
  by (induction a) (auto simp: is_high_surrogate_def is_low_surrogate_def)

lemma hex_digit_ascii: "d < 16 \<Longrightarrow> hex_digit d < 128"
  by (simp add: hex_digit_def)

lemma unicode_escape_ascii: "u < 65536 \<Longrightarrow> list_all (\<lambda>u. u < 128) (unicode_escape u)"
proof -
  assume "u < 65536"
  then have "u div 4096 < 16" by auto
  moreover have "u div 256 mod 16 < 16" "u div 16 mod 16 < 16" "u mod 16 < 16" by simp_all
  ultimately show ?thesis by (simp add: unicode_escape_def hex_digit_ascii)
qed

lemma well_formed_escape:
  "u < 65536 \<Longrightarrow> well_formed (unicode_escape u @ b) = well_formed b"
  by (rule well_formed_ascii) (rule unicode_escape_ascii)

lemma well_formed_quote_body:
  "jsstring_ok s \<Longrightarrow> well_formed (quote_body s @ b) = well_formed b"
proof (induction s rule: quote_body.induct)
  case 1
  then show ?case by simp
next
  case (2 u us)
  from "2.prems" have ok: "u < 65536" "jsstring_ok us" by (simp_all add: jsstring_ok_def)
  have d: "u < 32 \<or> 32 \<le> u" by arith
  consider (esc) "u = 8 \<or> u = 9 \<or> u = 10 \<or> u = 12 \<or> u = 13 \<or> u = 34 \<or> u = 92"
    | (ctl) "u < 32" "\<not> (u = 8 \<or> u = 9 \<or> u = 10 \<or> u = 12 \<or> u = 13)"
    | (pair) l us' where "is_high_surrogate u" "us = l # us'" "is_low_surrogate l"
    | (lone_high) "is_high_surrogate u" "us = [] \<or> \<not> is_low_surrogate (hd us)"
    | (lone_low) "is_low_surrogate u"
    | (plain) "32 \<le> u" "u \<noteq> 34" "u \<noteq> 92" "\<not> is_high_surrogate u" "\<not> is_low_surrogate u"
    using d by (cases us) (simp_all, blast+)
  then show ?case
  proof cases
    case esc
    then show ?thesis using "2.IH"(1-7) ok
      by (auto simp: is_high_surrogate_def is_low_surrogate_def)
  next
    case ctl
    then show ?thesis using "2.IH"(8) ok by (auto simp: well_formed_escape)
  next
    case pair
    then have "jsstring_ok us'" using ok by (simp add: jsstring_ok_def)
    moreover have "\<not> u < 32" "u \<noteq> 8" "u \<noteq> 9" "u \<noteq> 10" "u \<noteq> 12" "u \<noteq> 13" "u \<noteq> 34" "u \<noteq> 92"
      using pair by (auto simp: is_high_surrogate_def)
    ultimately show ?thesis using "2.IH"(9) [of l us'] pair by simp
  next
    case lone_high
    then have n: "\<not> u < 32" "u \<noteq> 8" "u \<noteq> 9" "u \<noteq> 10" "u \<noteq> 12" "u \<noteq> 13" "u \<noteq> 34" "u \<noteq> 92"
      by (auto simp: is_high_surrogate_def)
    show ?thesis
    proof (cases us)
      case Nil
      then show ?thesis using lone_high n ok well_formed_escape [of u b] by simp
    next
      case (Cons l us')
      then show ?thesis using lone_high n ok "2.IH"(10) [of l us']
        by (simp add: well_formed_escape del: well_formed.simps)
    qed
  next
    case lone_low
    then have n: "\<not> u < 32" "u \<noteq> 8" "u \<noteq> 9" "u \<noteq> 10" "u \<noteq> 12" "u \<noteq> 13" "u \<noteq> 34" "u \<noteq> 92"
      "\<not> is_high_surrogate u"
      by (auto simp: is_high_surrogate_def is_low_surrogate_def)
    then show ?thesis using lone_low ok "2.IH"(11)
      by (simp add: well_formed_escape del: well_formed.simps)
  next
    case plain
    then have "\<not> u < 32" "u \<noteq> 8" "u \<noteq> 9" "u \<noteq> 10" "u \<noteq> 12" "u \<noteq> 13" by auto
    then show ?thesis using plain ok "2.IH"(12) by simp
  qed
qed

lemma Number_toString_ascii: "list_all (\<lambda>u. u < 128) (Number_toString n)"
proof -
  obtain d ds where s: "Number_toString n = d # ds" "d = 45 \<or> is_digit d" "list_all is_numchar ds"
    using Number_toString_shape by blast
  have "\<And>c. is_numchar c \<Longrightarrow> c < 128" by (auto simp: is_numchar_def is_digit_def)
  then have "list_all (\<lambda>u. u < 128) ds" using s(3) by (auto simp: list_all_iff)
  moreover have "d < 128" using s(2) by (auto simp: is_digit_def)
  ultimately show ?thesis using s(1) by simp
qed

lemma well_formed_stringify:
  "jsstring_ok rid \<Longrightarrow> well_formed (JSON_stringify \<lparr>id_QR = rid, ts_QR = t, v_QR = v\<rparr>)"
  using well_formed_ascii [OF Number_toString_ascii]
  by (simp add: JSON_stringify_def QuoteJSONString_def js_def well_formed_quote_body
      is_high_surrogate_def is_low_surrogate_def)

lemma well_formed_jsstring_ok: "well_formed s \<Longrightarrow> jsstring_ok s"
proof (induction s rule: well_formed.induct)
  case 1
  then show ?case by (simp add: jsstring_ok_def)
next
  case (2 u us)
  show ?case
  proof (cases "is_high_surrogate u")
    case True
    then obtain l us' where us: "us = l # us'" "is_low_surrogate l" "well_formed us'"
      using "2.prems" by (cases us) auto
    then have "jsstring_ok us'" using "2.IH"(1) True by simp
    then show ?thesis using True us
      by (simp add: jsstring_ok_def is_high_surrogate_def is_low_surrogate_def)
  next
    case False
    then show ?thesis using 2 by (simp add: jsstring_ok_def)
  qed
qed

lemma payload_bytes_roundtrip:
  assumes "jsstring_ok rid"
  shows "toString_utf8 (Buffer_from_base64 (toString_base64 (Buffer_from_utf8
           (JSON_stringify \<lparr>id_QR = rid, ts_QR = t, v_QR = v\<rparr>)))) =
         JSON_stringify \<lparr>id_QR = rid, ts_QR = t, v_QR = v\<rparr>"
proof -
  let ?text = "JSON_stringify \<lparr>id_QR = rid, ts_QR = t, v_QR = v\<rparr>"
  have w: "well_formed ?text" using assms by (rule well_formed_stringify)
  then have "buffer_ok (Buffer_from_utf8 ?text)"
    by (intro utf8_bytes_ok well_formed_jsstring_ok)
  then have "Buffer_from_base64 (toString_base64 (Buffer_from_utf8 ?text)) = Buffer_from_utf8 ?text"
    by (rule base64_roundtrip)
  then show ?thesis using utf8_roundtrip [OF w] by simp
qed

subsection \<open>\<open>verifyQRSignature\<close> never throws\<close>

lemma verifyQRSignature_cases:
  "verifyQRSignature P ks now p s =
     (case crypto_verify P (PUBLIC_KEY ks) (Buffer_from_base64 p) (Buffer_from_base64 s) of
        Inl e \<Rightarrow> Inr None
      | Inr isValid \<Rightarrow>
          if \<not> isValid then Inr None
          else
            (case JSON_parse (toString_utf8 (Buffer_from_base64 p)) of
               Inl e \<Rightarrow> Inr None
             | Inr qrData \<Rightarrow>
                 (case get_prop qrData (js ''ts'') of
                    Inl e \<Rightarrow> Inr None
                  | Inr t \<Rightarrow>
                      (case ToNumber P t of
                         Inl e \<Rightarrow> Inr None
                       | Inr n \<Rightarrow> if too_old now n then Inr None else Inr (Some qrData)))))"
  by (simp add: verifyQRSignature_def try_catch_def Let_def split: sum.split)

text \<open>
  C10, as amended. \<open>verifyQRSignature\<close> is total over arbitrary strings and never
  throws: for every payload text, signature text, key material, clock value and
  platform the result is a returned value. It returns the value parsed from the payload
  exactly when \<open>crypto.verify\<close> returns true, the decoded payload is JSON, reading \<open>ts\<close>
  and converting it to a number do not throw, and \<open>Date.now() - ts\<close> is not greater than
  24 hours; in every other case (a false or throwing \<open>crypto.verify\<close>, a syntax error,
  \<open>null.ts\<close>, a \<open>ts\<close> that cannot be converted, a stale \<open>ts\<close>) it returns \<open>null\<close>.
  The returned value is whatever JSON value the payload holds: the cast to \<open>QRPayload\<close>
  checks nothing.
\<close>

theorem verifyQRSignature_total:
  "(\<exists>r. verifyQRSignature P ks now p s = Inr r) \<and>
   (verifyQRSignature P ks now p s = Inr (Some q) \<longleftrightarrow>
      crypto_verify P (PUBLIC_KEY ks) (Buffer_from_base64 p) (Buffer_from_base64 s) = Inr True \<and>
      JSON_parse (toString_utf8 (Buffer_from_base64 p)) = Inr q \<and>
      (\<exists>t n. get_prop q (js ''ts'') = Inr t \<and> ToNumber P t = Inr n \<and> \<not> too_old now n)) \<and>
   (verifyQRSignature P ks now p s = Inr None \<longleftrightarrow>
      (\<forall>q. verifyQRSignature P ks now p s \<noteq> Inr (Some q)))"
proof (intro conjI)
  show "\<exists>r. verifyQRSignature P ks now p s = Inr r"
    by (simp add: verifyQRSignature_cases split: sum.split)
  show "verifyQRSignature P ks now p s = Inr (Some q) \<longleftrightarrow>
      crypto_verify P (PUBLIC_KEY ks) (Buffer_from_base64 p) (Buffer_from_base64 s) = Inr True \<and>
      JSON_parse (toString_utf8 (Buffer_from_base64 p)) = Inr q \<and>
      (\<exists>t n. get_prop q (js ''ts'') = Inr t \<and> ToNumber P t = Inr n \<and> \<not> too_old now n)"
    by (auto simp: verifyQRSignature_cases split: sum.splits if_splits)
  show "verifyQRSignature P ks now p s = Inr None \<longleftrightarrow>
      (\<forall>q. verifyQRSignature P ks now p s \<noteq> Inr (Some q))"
    by (auto simp: verifyQRSignature_cases split: sum.splits if_splits)
qed

text \<open>
  The theorem at a concrete input: the payload text \<open>e30=\<close> is the JSON text \<open>{}\<close>,
  and \<open>S/g=\<close> is the signature the stand-in primitive accepts for it. The object has
  no \<open>ts\<close>, the difference is \<open>NaN\<close>, the comparison is false, and the object is
  returned.
\<close>

theorem verifyQRSignature_total_witness:
  "verifyQRSignature standin_platform \<lparr>PRIVATE_KEY = js ''K'', PUBLIC_KEY = js ''K''\<rparr>
     1700000000000 (js ''e30='') (js ''S/g='') = Inr (Some (JObj []))"
proof -
  let ?ks = "\<lparr>PRIVATE_KEY = js ''K'', PUBLIC_KEY = js ''K''\<rparr>"
  have a: "crypto_verify standin_platform (PUBLIC_KEY ?ks) (Buffer_from_base64 (js ''e30=''))
             (Buffer_from_base64 (js ''S/g='')) = Inr True"
    by (simp add: standin_platform_def standin_tag_def js_def Buffer_from_base64_def unbase64_def)
  have b: "JSON_parse (toString_utf8 (Buffer_from_base64 (js ''e30=''))) = Inr (JObj [])"
    by (simp add: js_def Buffer_from_base64_def unbase64_def JSON_parse_def is_digit_def
        cons_tok_def step_def close_object_def)
  have c: "get_prop (JObj []) (js ''ts'') = Inr None \<and> ToNumber standin_platform None = Inr NaN \<and>
           \<not> too_old 1700000000000 NaN"
    by (simp add: get_prop_def ToNumber_def too_old_def js_minus_def js_greater_def)
  from a b c verifyQRSignature_total [of standin_platform ?ks 1700000000000 "js ''e30=''" "js ''S/g=''" "JObj []"]
  show ?thesis by blast
qed

text \<open>
  The claim as stated fails: the payload text \<open>ImFiYyI=\<close> is the JSON text \<open>"abc"\<close>;
  with a signature that verifies, the function returns the string \<open>abc\<close>, which is
  neither \<open>null\<close> nor a \<open>QRPayload\<close>.
\<close>

theorem verifyQRSignature_returns_non_payload:
  "verifyQRSignature standin_platform \<lparr>PRIVATE_KEY = js ''K'', PUBLIC_KEY = js ''K''\<rparr>
     1700000000000 (js ''ImFiYyI='') (js ''S2o='') = Inr (Some (JStr (js ''abc''))) \<and>
   \<not> is_QRPayload (JStr (js ''abc''))"
  by (simp add: verifyQRSignature_cases standin_platform_def standin_tag_def js_def
      Buffer_from_base64_def unbase64_def JSON_parse_def is_digit_def cons_tok_def step_def
      get_prop_def ToNumber_def too_old_def js_minus_def js_greater_def is_QRPayload_def)

subsection \<open>Issued payloads\<close>

lemma too_old_int:
  assumes "safe_integer (now - t)"
  shows "too_old now (Num (of_int t)) = (maxAge < now - t)"
proof -
  have "round_double (of_int now - of_int t) = Num (of_int (now - t))"
    using round_double_int [OF assms] by simp
  moreover have "(of_int maxAge < (of_int now - of_int t :: rat)) = (maxAge < now - t)"
    by (simp only: of_int_diff [symmetric] of_int_less_iff)
  ultimately show ?thesis by (simp add: too_old_def js_minus_def js_greater_def)
qed

lemma payload_members:
  "get_prop (JObj [(js ''id'', a), (js ''ts'', b), (js ''v'', c)]) (js ''id'') = Inr (Some a)"
  "get_prop (JObj [(js ''id'', a), (js ''ts'', b), (js ''v'', c)]) (js ''ts'') = Inr (Some b)"
  "get_prop (JObj [(js ''id'', a), (js ''ts'', b), (js ''v'', c)]) (js ''v'') = Inr (Some c)"
  by (simp_all add: get_prop_def js_def)

lemma verify_of_encoded:
  assumes "jsstring_ok rid" "safe_integer t" "safe_integer v" "safe_integer (now - t)"
    and "crypto_verify P (PUBLIC_KEY ks)
           (Buffer_from_base64 (toString_base64 (Buffer_from_utf8
              (JSON_stringify \<lparr>id_QR = rid, ts_QR = t, v_QR = v\<rparr>))))
           (Buffer_from_base64 s) = Inr True"
  shows "verifyQRSignature P ks now
           (toString_base64 (Buffer_from_utf8 (JSON_stringify \<lparr>id_QR = rid, ts_QR = t, v_QR = v\<rparr>))) s =
         Inr (if maxAge < now - t then None
              else Some (JObj [(js ''id'', JStr rid), (js ''ts'', JNum (Num (of_int t))),
                               (js ''v'', JNum (Num (of_int v)))]))"
  using assms(5)
  by (simp add: verifyQRSignature_cases payload_bytes_roundtrip [OF assms(1)]
      JSON_parse_stringify [OF assms(1-3)] payload_members ToNumber_def too_old_int [OF assms(4)])

lemma generateQRPayload_cases:
  "generateQRPayload P ks now rid =
     (case crypto_sign P (PRIVATE_KEY ks)
             (Buffer_from_utf8 (JSON_stringify \<lparr>id_QR = rid, ts_QR = now, v_QR = 1\<rparr>)) of
        Inl e \<Rightarrow> Inl e
      | Inr sg \<Rightarrow>
          Inr (toString_base64 (Buffer_from_utf8
                 (JSON_stringify \<lparr>id_QR = rid, ts_QR = now, v_QR = 1\<rparr>)),
               toString_base64 sg))"
  by (simp add: generateQRPayload_def Let_def)

lemma generated_payload:
  "generateQRPayload P ks now rid = Inr (p, s) \<Longrightarrow>
   p = toString_base64 (Buffer_from_utf8 (JSON_stringify \<lparr>id_QR = rid, ts_QR = now, v_QR = 1\<rparr>))"
  by (auto simp: generateQRPayload_cases split: sum.splits)

lemma safe_one: "safe_integer 1"
  by (simp add: safe_integer_def)

lemma decode_encoded_payload:
  assumes "jsstring_ok rid" "safe_integer t" "safe_integer v"
  shows "JSON_parse (toString_utf8 (Buffer_from_base64 (toString_base64 (Buffer_from_utf8
           (JSON_stringify \<lparr>id_QR = rid, ts_QR = t, v_QR = v\<rparr>))))) =
         Inr (JObj [(js ''id'', JStr rid), (js ''ts'', JNum (Num (of_int t))),
                    (js ''v'', JNum (Num (of_int v)))])"
  by (simp add: payload_bytes_roundtrip [OF assms(1)] JSON_parse_stringify [OF assms])



text \<open>
  C9, as amended. \<open>generateQRPayload\<close> validates nothing and raises no encoding
  error: for every record id, the empty string included, it fails only where
  \<open>crypto.sign\<close> throws, with that exception; where \<open>crypto.sign\<close> returns, it produces
  the signed credential, whose payload decodes to the given id, the clock value and the
  version 1. The version is the constant 1 and is not an input.
\<close>

theorem generateQRPayload_no_validation:
  assumes "jsstring_ok rid" "safe_integer now"
  shows "(generateQRPayload P ks now rid = Inl e \<longleftrightarrow>
            crypto_sign P (PRIVATE_KEY ks)
              (Buffer_from_utf8 (JSON_stringify \<lparr>id_QR = rid, ts_QR = now, v_QR = 1\<rparr>)) = Inl e) \<and>
         (crypto_sign P (PRIVATE_KEY ks)
              (Buffer_from_utf8 (JSON_stringify \<lparr>id_QR = rid, ts_QR = now, v_QR = 1\<rparr>)) = Inr sg
          \<longrightarrow> (\<exists>p. generateQRPayload P ks now rid = Inr (p, toString_base64 sg) \<and>
                   JSON_parse (toString_utf8 (Buffer_from_base64 p)) =
                     Inr (JObj [(js ''id'', JStr rid), (js ''ts'', JNum (Num (of_int now))),
                                (js ''v'', JNum (Num 1))])))"
  using decode_encoded_payload [OF assms safe_one]
  by (auto simp: generateQRPayload_cases split: sum.splits)

text \<open>The theorem at the empty record id, with the stand-in primitive.\<close>

theorem generateQRPayload_no_validation_witness:
  "\<exists>p. generateQRPayload standin_platform \<lparr>PRIVATE_KEY = js ''K'', PUBLIC_KEY = js ''K''\<rparr> 0 [] =
          Inr (p, toString_base64 (standin_tag (js ''K'')
                 (Buffer_from_utf8 (JSON_stringify \<lparr>id_QR = [], ts_QR = 0, v_QR = 1\<rparr>)))) \<and>
        JSON_parse (toString_utf8 (Buffer_from_base64 p)) =
          Inr (JObj [(js ''id'', JStr []), (js ''ts'', JNum (Num 0)), (js ''v'', JNum (Num 1))])"
  using generateQRPayload_no_validation
    [of "[]" 0 standin_platform "\<lparr>PRIVATE_KEY = js ''K'', PUBLIC_KEY = js ''K''\<rparr>" TypeError
        "standin_tag (js ''K'') (Buffer_from_utf8 (JSON_stringify \<lparr>id_QR = [], ts_QR = 0, v_QR = 1\<rparr>))"]
  by (simp add: jsstring_ok_def safe_integer_def standin_platform_def)

text \<open>
  The claim as stated fails: for the empty record id a payload and a signature are
  produced. The payload text is the base64 of \<open>{"id":"","ts":0,"v":1}\<close>.
\<close>

theorem generateQRPayload_accepts_empty_id:
  "generateQRPayload standin_platform \<lparr>PRIVATE_KEY = js ''K'', PUBLIC_KEY = js ''K''\<rparr> 0 [] =
     Inr (js ''eyJpZCI6IiIsInRzIjowLCJ2IjoxfQ=='', js ''S5k='')"
  by (simp add: generateQRPayload_cases standin_platform_def standin_tag_def JSON_stringify_def
      QuoteJSONString_def Number_toString_def digits_of.simps js_def b64_char_def)

subsection \<open>Freshness\<close>

lemma safe_window: "safe_integer (maxAge + 1) \<and> safe_integer (maxAge - 1) \<and> safe_integer maxAge"
  by (simp add: safe_integer_def maxAge_def)

lemma verify_of_generated:
  assumes "jsstring_ok rid" "safe_integer issuedAt" "safe_integer (now - issuedAt)"
    and gen: "generateQRPayload P ks issuedAt rid = Inr (p, s)"
    and acc: "crypto_verify P (PUBLIC_KEY ks) (Buffer_from_base64 p) (Buffer_from_base64 s) = Inr True"
  shows "verifyQRSignature P ks now p s =
         Inr (if maxAge < now - issuedAt then None
              else Some (JObj [(js ''id'', JStr rid), (js ''ts'', JNum (Num (of_int issuedAt))),
                               (js ''v'', JNum (Num 1))]))"
  using verify_of_encoded [OF assms(1,2) safe_one assms(3), of P ks s] acc
  unfolding generated_payload [OF gen] by simp

text \<open>
  C6. Freshness boundary: a credential issued by \<open>generateQRPayload\<close> at \<open>issuedAt\<close>
  whose signature verifies is rejected as stale (\<open>null\<close>) by \<open>verifyQRSignature\<close> at
  time \<open>now\<close> when \<open>issuedAt = now - maxAge - 1\<close>, and is returned, not rejected, when
  \<open>issuedAt = now - maxAge + 1\<close>; at \<open>issuedAt = now - maxAge\<close> exactly it is returned
  too. \<open>maxAge\<close> is 24 hours in milliseconds.
\<close>

theorem freshness_boundary:
  assumes "jsstring_ok rid" "safe_integer issuedAt"
    and "generateQRPayload P ks issuedAt rid = Inr (p, s)"
    and "crypto_verify P (PUBLIC_KEY ks) (Buffer_from_base64 p) (Buffer_from_base64 s) = Inr True"
  shows "(issuedAt = now - maxAge - 1 \<longrightarrow> verifyQRSignature P ks now p s = Inr None) \<and>
         (issuedAt = now - maxAge + 1 \<longrightarrow>
            verifyQRSignature P ks now p s =
              Inr (Some (JObj [(js ''id'', JStr rid), (js ''ts'', JNum (Num (of_int issuedAt))),
                               (js ''v'', JNum (Num 1))]))) \<and>
         (issuedAt = now - maxAge \<longrightarrow>
            verifyQRSignature P ks now p s =
              Inr (Some (JObj [(js ''id'', JStr rid), (js ''ts'', JNum (Num (of_int issuedAt))),
                               (js ''v'', JNum (Num 1))])))"
proof (intro conjI impI)
  assume e: "issuedAt = now - maxAge - 1"
  then have "now - issuedAt = maxAge + 1" by simp
  then have "safe_integer (now - issuedAt)" "maxAge < now - issuedAt" using safe_window by simp_all
  then show "verifyQRSignature P ks now p s = Inr None"
    using verify_of_generated [OF assms(1,2) _ assms(3,4), of now] by simp
next
  assume e: "issuedAt = now - maxAge + 1"
  then have "now - issuedAt = maxAge - 1" by simp
  then have "safe_integer (now - issuedAt)" "\<not> maxAge < now - issuedAt" using safe_window by simp_all
  then show "verifyQRSignature P ks now p s =
      Inr (Some (JObj [(js ''id'', JStr rid), (js ''ts'', JNum (Num (of_int issuedAt))),
                       (js ''v'', JNum (Num 1))]))"
    using verify_of_generated [OF assms(1,2) _ assms(3,4), of now] by simp
next
  assume e: "issuedAt = now - maxAge"
  then have "now - issuedAt = maxAge" by simp
  then have "safe_integer (now - issuedAt)" "\<not> maxAge < now - issuedAt" using safe_window by simp_all
  then show "verifyQRSignature P ks now p s =
      Inr (Some (JObj [(js ''id'', JStr rid), (js ''ts'', JNum (Num (of_int issuedAt))),
                       (js ''v'', JNum (Num 1))]))"
    using verify_of_generated [OF assms(1,2) _ assms(3,4), of now] by simp
qed

text \<open>
  The boundary at \<open>now = 1700000000000\<close>, for the record id \<open>R1\<close> and the stand-in
  primitive: the credential issued at \<open>1699913599999\<close> is stale, the one issued at
  \<open>1699913600001\<close> is returned.
\<close>

lemma standin_R1_stale:
  "generateQRPayload standin_platform \<lparr>PRIVATE_KEY = js ''K'', PUBLIC_KEY = js ''K''\<rparr>
     1699913599999 (js ''R1'') =
     Inr (js ''eyJpZCI6IlIxIiwidHMiOjE2OTk5MTM1OTk5OTksInYiOjF9'', js ''S7Q='')"
  by (simp add: generateQRPayload_cases standin_platform_def standin_tag_def JSON_stringify_def
      QuoteJSONString_def Number_toString_def digits_of.simps js_def b64_char_def
      is_high_surrogate_def is_low_surrogate_def)

lemma standin_R1_fresh:
  "generateQRPayload standin_platform \<lparr>PRIVATE_KEY = js ''K'', PUBLIC_KEY = js ''K''\<rparr>
     1699913600001 (js ''R1'') =
     Inr (js ''eyJpZCI6IlIxIiwidHMiOjE2OTk5MTM2MDAwMDEsInYiOjF9'', js ''S4k='')"
  by (simp add: generateQRPayload_cases standin_platform_def standin_tag_def JSON_stringify_def
      QuoteJSONString_def Number_toString_def digits_of.simps js_def b64_char_def
      is_high_surrogate_def is_low_surrogate_def)

lemma standin_accepts_stale:
  "crypto_verify standin_platform (js ''K'')
     (Buffer_from_base64 (js ''eyJpZCI6IlIxIiwidHMiOjE2OTk5MTM1OTk5OTksInYiOjF9''))
     (Buffer_from_base64 (js ''S7Q='')) = Inr True"
  by (simp add: standin_platform_def standin_tag_def js_def Buffer_from_base64_def unbase64_def)

lemma standin_accepts_fresh:
  "crypto_verify standin_platform (js ''K'')
     (Buffer_from_base64 (js ''eyJpZCI6IlIxIiwidHMiOjE2OTk5MTM2MDAwMDEsInYiOjF9''))
     (Buffer_from_base64 (js ''S4k='')) = Inr True"
  by (simp add: standin_platform_def standin_tag_def js_def Buffer_from_base64_def unbase64_def)

theorem freshness_boundary_witness:
  "verifyQRSignature standin_platform \<lparr>PRIVATE_KEY = js ''K'', PUBLIC_KEY = js ''K''\<rparr>
     1700000000000 (js ''eyJpZCI6IlIxIiwidHMiOjE2OTk5MTM1OTk5OTksInYiOjF9'') (js ''S7Q='') = Inr None \<and>
   verifyQRSignature standin_platform \<lparr>PRIVATE_KEY = js ''K'', PUBLIC_KEY = js ''K''\<rparr>
     1700000000000 (js ''eyJpZCI6IlIxIiwidHMiOjE2OTk5MTM2MDAwMDEsInYiOjF9'') (js ''S4k='') =
     Inr (Some (JObj [(js ''id'', JStr (js ''R1'')), (js ''ts'', JNum (Num 1699913600001)),
                      (js ''v'', JNum (Num 1))]))"
proof -
  let ?ks = "\<lparr>PRIVATE_KEY = js ''K'', PUBLIC_KEY = js ''K''\<rparr>"
  have ok: "jsstring_ok (js ''R1'')" "safe_integer 1699913599999" "safe_integer 1699913600001"
    by (simp_all add: jsstring_ok_def js_def safe_integer_def)
  have a: "1699913599999 = 1700000000000 - maxAge - 1" "1699913600001 = 1700000000000 - maxAge + 1"
    by (simp_all add: maxAge_def)
  have k: "PUBLIC_KEY ?ks = js ''K''" by simp
  from freshness_boundary [OF ok(1,2) standin_R1_stale, of 1700000000000]
       freshness_boundary [OF ok(1,3) standin_R1_fresh, of 1700000000000]
       standin_accepts_stale standin_accepts_fresh a k
  show ?thesis by simp
qed

subsection \<open>Signature integrity\<close>








text \<open>
  With both environment variables unset, the private key is that of the first generated
  pair and the public key that of the second: the module's own credential does not
  verify (here with the stand-in primitive and two pairs that do not match).
\<close>

lemma module_keys_unset:
  "module_keys None None kp1 kp2 = \<lparr>PRIVATE_KEY = privateKey kp1, PUBLIC_KEY = publicKey kp2\<rparr>"
  by (simp add: module_keys_def env_or_def)

lemma unset_keys_reject_own_credential:
  "generateQRPayload standin_platform
     (module_keys None None \<lparr>privateKey = js ''A'', publicKey = js ''A''\<rparr>
                            \<lparr>privateKey = js ''B'', publicKey = js ''B''\<rparr>)
     0 (js ''R1'') = Inr (js ''eyJpZCI6IlIxIiwidHMiOjAsInYiOjF9'', js ''QRw='') \<and>
   verifyQRSignature standin_platform
     (module_keys None None \<lparr>privateKey = js ''A'', publicKey = js ''A''\<rparr>
                            \<lparr>privateKey = js ''B'', publicKey = js ''B''\<rparr>)
     0 (js ''eyJpZCI6IlIxIiwidHMiOjAsInYiOjF9'') (js ''QRw='') = Inr None"
  by (simp add: module_keys_unset generateQRPayload_cases verifyQRSignature_cases
      standin_platform_def standin_tag_def JSON_stringify_def QuoteJSONString_def
      Number_toString_def digits_of.simps js_def b64_char_def is_high_surrogate_def
      is_low_surrogate_def Buffer_from_base64_def unbase64_def)

end
